theory Spec2Isabelle
  imports Complex_Main "HOL-Library.Word" "HOL-Library.Multiset" "HOL-Library.Sublist"
begin

section \<open>JavaScript values\<close>

text \<open>
  A JavaScript string is a sequence of UTF-16 code units; \<open>s.length\<close> counts them.
  Numbers that the service handles are document indices and table dimensions, which
  the Docs API carries as integers; they are modelled as \<open>int\<close>.
\<close>

type_synonym js_string = "16 word list"

definition js :: "string \<Rightarrow> js_string" where
  "js s = map of_char s"

text \<open>
  \<open>String.prototype.trim\<close> strips WhiteSpace and LineTerminator code points from both
  ends of the string (ECMAScript, TrimString).
\<close>

definition isWhiteSpace :: "16 word \<Rightarrow> bool" where
  "isWhiteSpace c =
     (c = 0x0009 \<or> c = 0x000A \<or> c = 0x000B \<or> c = 0x000C \<or> c = 0x000D \<or> c = 0x0020
      \<or> c = 0x00A0 \<or> c = 0x1680 \<or> (0x2000 \<le> c \<and> c \<le> 0x200A)
      \<or> c = 0x2028 \<or> c = 0x2029 \<or> c = 0x202F \<or> c = 0x205F \<or> c = 0x3000
      \<or> c = 0xFEFF)"

definition trim :: "js_string \<Rightarrow> js_string" where
  "trim s = rev (dropWhile isWhiteSpace (rev (dropWhile isWhiteSpace s)))"

text \<open>\<open>xs || []\<close> on an optional array, and \<open>n || d\<close> on an optional number
  (\<open>undefined\<close> and \<open>0\<close> are falsy).\<close>

fun or_empty :: "'a list option \<Rightarrow> 'a list" where
  "or_empty None = []"
| "or_empty (Some xs) = xs"

fun num_or :: "int option \<Rightarrow> int \<Rightarrow> int" where
  "num_or None d = d"
| "num_or (Some n) d = (if n = 0 then d else n)"

section \<open>The document snapshot returned by \<open>documents.get\<close>\<close>

text \<open>
  The shapes are those of the Docs API response that the service reads. Every field the
  service guards with \<open>?.\<close>, \<open>||\<close>, \<open>!= null\<close> or \<open>!== undefined\<close> is optional here;
  \<open>None\<close> is the absent field.
\<close>

text \<open>
  The field \<open>paragraph\<close> of a structural element is the selector \<open>el_paragraph\<close>,
  the field \<open>content\<close> of a text run, a table cell and a body are \<open>run_content\<close>,
  \<open>cell_content\<close> and \<open>body_content\<close>, and the indices of a paragraph element
  are \<open>pe_startIndex\<close> and \<open>pe_endIndex\<close>.
\<close>

datatype text_run = TextRun (run_content: "js_string option")

datatype paragraph_element =
  ParagraphElement (pe_startIndex: "int option") (pe_endIndex: "int option")
    (textRun: "text_run option")

datatype doc_paragraph = Paragraph (elements: "paragraph_element list option")

datatype structural_element =
  StructuralElement (startIndex: "int option") (endIndex: "int option")
    (el_paragraph: "doc_paragraph option") (table: "table option")
and table = Table (tableRows: "table_row list option")
and table_row = TableRow (tableCells: "table_cell list option")
and table_cell = TableCell (cell_content: "structural_element list option")

datatype body = Body (body_content: "structural_element list option")

datatype document = Document (body: "body option")

text \<open>\<open>doc.data.body?.content || []\<close>\<close>

definition content_or_empty :: "document \<Rightarrow> structural_element list" where
  "content_or_empty doc =
     (case body doc of None \<Rightarrow> [] | Some b \<Rightarrow> or_empty (body_content b))"

section \<open>The requests of a \<open>documents.batchUpdate\<close> call\<close>

datatype range = Range (range_startIndex: int) (range_endIndex: int)

datatype rgb_color = RgbColor (red: rat) (green: rat) (blue: rat)

datatype dimension = Dimension (magnitude: int) (unit: string)

datatype table_cell_border =
  TableCellBorder (border_color: rgb_color) (width: dimension) (dashStyle: string)

datatype table_cell_style =
  Borders (borderTop: table_cell_border) (borderBottom: table_cell_border)
    (borderLeft: table_cell_border) (borderRight: table_cell_border)
| BackgroundColor rgb_color

datatype table_range =
  TableRange (tableStartLocation: int) (rowIndex: nat) (columnIndex: nat)
    (rowSpan: nat) (columnSpan: nat)

datatype text_style = TextStyleBold bool | TextStyleLink js_string

datatype paragraph_style = Alignment string

text \<open>
  \<open>InsertText index text\<close>, \<open>DeleteContentRange range\<close>,
  \<open>InsertTable rows columns index\<close>, and the three style updates, each with its
  \<open>fields\<close> mask as last argument.
\<close>

datatype request =
  InsertText int js_string
| DeleteContentRange range
| InsertTable int int int
| UpdateTextStyle range text_style string
| UpdateParagraphStyle range paragraph_style string
| UpdateTableCellStyle table_cell_style table_range string

section \<open>The backend and the calls made to it\<close>

text \<open>
  A thrown \<open>Error\<close> with its message, and the rethrow
  \<open>new Error(`<prefix>: ${error}`)\<close> of every \<open>catch\<close> block of the service.
\<close>

datatype error = Error string | Wrapped string error

text \<open>
  The service talks to the backend through \<open>this.docs.documents.get\<close> and
  \<open>this.docs.documents.batchUpdate\<close> only. The backend is not part of the repository:
  it is any function from the calls made so far (and the arguments of the present call)
  to a reply. The calls are recorded in the order they are made; a call is recorded
  whether the backend accepts it or not.
\<close>

datatype event = Get string | BatchUpdate string "request list"

record world =
  snapshots :: "event list \<Rightarrow> string \<Rightarrow> error + document"
  verdicts :: "event list \<Rightarrow> string \<Rightarrow> request list \<Rightarrow> error option"
  trace :: "event list"

definition documents_get :: "string \<Rightarrow> world \<Rightarrow> (error + document) \<times> world" where
  "documents_get documentId w =
     (snapshots w (trace w) documentId, w\<lparr>trace := trace w @ [Get documentId]\<rparr>)"

definition documents_batchUpdate ::
  "string \<Rightarrow> request list \<Rightarrow> world \<Rightarrow> error option \<times> world" where
  "documents_batchUpdate documentId requests w =
     (verdicts w (trace w) documentId requests,
      w\<lparr>trace := trace w @ [BatchUpdate documentId requests]\<rparr>)"

section \<open>DocumentService: replace, link, append\<close>

text \<open>
  \<open>updateDocument\<close> as the service defines it ("replacing ALL content"): the total
  length is read from the last element of the body.
\<close>

definition updateDocument :: "world \<Rightarrow> string \<Rightarrow> js_string \<Rightarrow> (error + unit) \<times> world" where
  "updateDocument w documentId text =
     (case documents_get documentId w of
        (Inl e, w1) \<Rightarrow> (Inl (Wrapped ''Failed to update document'' e), w1)
      | (Inr doc, w1) \<Rightarrow>
          let body = content_or_empty doc;
              lastElement = (if body = [] then None else Some (last body));
              documentEndIndex = num_or (Option.bind lastElement endIndex) 1;
              requests =
                (if documentEndIndex > 2
                 then [DeleteContentRange (Range 1 (documentEndIndex - 1))] else [])
                @ [InsertText 1 text]
          in (case documents_batchUpdate documentId requests w1 of
                (Some e, w2) \<Rightarrow> (Inl (Wrapped ''Failed to update document'' e), w2)
              | (None, w2) \<Rightarrow> (Inr (), w2)))"

text \<open>
  The earlier \<open>updateDocument\<close> of the same service file: the length is read from the
  first element of the body, \<open>doc.data.body?.content?.[0]?.endIndex || 1\<close>.
\<close>

definition updateDocument_first ::
  "world \<Rightarrow> string \<Rightarrow> js_string \<Rightarrow> (error + unit) \<times> world" where
  "updateDocument_first w documentId text =
     (case documents_get documentId w of
        (Inl e, w1) \<Rightarrow> (Inl (Wrapped ''Failed to update document'' e), w1)
      | (Inr doc, w1) \<Rightarrow>
          let contentLength =
                num_or (case content_or_empty doc of [] \<Rightarrow> None | el # _ \<Rightarrow> endIndex el) 1;
              requests =
                (if contentLength > 2
                 then [DeleteContentRange (Range 1 (contentLength - 1))] else [])
                @ [InsertText 1 text]
          in (case documents_batchUpdate documentId requests w1 of
                (Some e, w2) \<Rightarrow> (Inl (Wrapped ''Failed to update document'' e), w2)
              | (None, w2) \<Rightarrow> (Inr (), w2)))"

definition insertLink ::
  "world \<Rightarrow> string \<Rightarrow> int \<Rightarrow> js_string \<Rightarrow> js_string \<Rightarrow> (error + unit) \<times> world" where
  "insertLink w documentId index text url =
     (let endIndex = index + int (length text)
      in (case documents_batchUpdate documentId
                 [InsertText index text,
                  UpdateTextStyle (Range index endIndex) (TextStyleLink url) ''link''] w of
            (Some e, w1) \<Rightarrow> (Inl (Wrapped ''Failed to insert link'' e), w1)
          | (None, w1) \<Rightarrow> (Inr (), w1)))"

definition appendText :: "world \<Rightarrow> string \<Rightarrow> js_string \<Rightarrow> (error + unit) \<times> world" where
  "appendText w documentId text =
     (case documents_get documentId w of
        (Inl e, w1) \<Rightarrow> (Inl (Wrapped ''Failed to append text'' e), w1)
      | (Inr doc, w1) \<Rightarrow>
          let body = content_or_empty doc;
              lastElement = (if body = [] then None else Some (last body));
              endIndex = num_or (Option.bind lastElement endIndex) 2 - 1
          in (case documents_batchUpdate documentId [InsertText endIndex text] w1 of
                (Some e, w2) \<Rightarrow> (Inl (Wrapped ''Failed to append text'' e), w2)
              | (None, w2) \<Rightarrow> (Inr (), w2)))"

section \<open>DocumentService: table insertion\<close>

text \<open>
  The loop that looks for the inserted table: the first element of the body that has a
  \<open>table\<close> and a \<open>startIndex\<close> at or after \<open>tableIndex\<close>. The result carries the
  two fields that the rest of \<open>insertTable\<close> reads from it.
\<close>

fun find_table :: "structural_element list \<Rightarrow> int \<Rightarrow> (int \<times> table) option" where
  "find_table [] tableIndex = None"
| "find_table (element # rest) tableIndex =
     (case (table element, startIndex element) of
        (Some t, Some s) \<Rightarrow>
          if s \<ge> tableIndex then Some (s, t) else find_table rest tableIndex
      | _ \<Rightarrow> find_table rest tableIndex)"

datatype cell_insert = CellInsert (ci_index: int) (ci_text: js_string) (isHeader: bool)

text \<open>
  The inner loop over \<open>cell.content\<close>: the \<open>startIndex\<close> of the first element that is
  a paragraph and has one (the loop breaks there).
\<close>

fun first_paragraph_start :: "structural_element list \<Rightarrow> int option" where
  "first_paragraph_start [] = None"
| "first_paragraph_start (cellElement # rest) =
     (case (el_paragraph cellElement, startIndex cellElement) of
        (Some p, Some s) \<Rightarrow> Some s
      | _ \<Rightarrow> first_paragraph_start rest)"

text \<open>
  Step 4, the two nested loops: \<open>rowIdx\<close> runs while it is below both
  \<open>tableRows.length\<close> and \<open>data.length\<close>, \<open>colIdx\<close> while it is below both
  \<open>tableCells.length\<close> and \<open>data[rowIdx].length\<close>, so every array read is in
  range. \<open>data\<close> has the declared type \<open>string[][]\<close>. \<open>cell_inserts_of\<close> is the
  body of the inner loop.
\<close>

definition cell_inserts_of ::
  "bool \<Rightarrow> nat \<Rightarrow> table_cell \<Rightarrow> js_string \<Rightarrow> cell_insert list" where
  "cell_inserts_of headerRow rowIdx cell cellContent =
     (if cellContent \<noteq> [] \<and> length cellContent > 0
      then (case first_paragraph_start (or_empty (cell_content cell)) of
              None \<Rightarrow> []
            | Some s \<Rightarrow> [CellInsert s cellContent (headerRow \<and> rowIdx = 0)])
      else [])"

definition cellInserts :: "table \<Rightarrow> js_string list list \<Rightarrow> bool \<Rightarrow> cell_insert list" where
  "cellInserts t data headerRow =
     concat (map (\<lambda>rowIdx.
                concat (map (\<lambda>colIdx.
                          cell_inserts_of headerRow rowIdx
                            (or_empty (tableCells (or_empty (tableRows t) ! rowIdx)) ! colIdx)
                            (data ! rowIdx ! colIdx))
                        [0..<min (length (or_empty (tableCells (or_empty (tableRows t) ! rowIdx))))
                                 (length (data ! rowIdx))]))
             [0..<min (length (or_empty (tableRows t))) (length data)])"

text \<open>
  \<open>cellInserts.sort((a, b) => b.index - a.index)\<close>: \<open>Array.prototype.sort\<close> is a
  stable sort, here by descending \<open>index\<close>.
\<close>

definition sort_descending :: "cell_insert list \<Rightarrow> cell_insert list" where
  "sort_descending inserts = sort_key (\<lambda>c. - ci_index c) inserts"

definition insertRequests :: "cell_insert list \<Rightarrow> request list" where
  "insertRequests inserts =
     map (\<lambda>cell. InsertText (ci_index cell) (ci_text cell)) inserts"

text \<open>Step 6: borders on all cells, then the header formatting.\<close>

definition borderStyle :: table_cell_border where
  "borderStyle = TableCellBorder (RgbColor 0 0 0) (Dimension 1 ''PT'') ''SOLID''"

definition border_request :: "int \<Rightarrow> nat \<Rightarrow> nat \<Rightarrow> request" where
  "border_request tableStartIndex rowIdx colIdx =
     UpdateTableCellStyle (Borders borderStyle borderStyle borderStyle borderStyle)
       (TableRange tableStartIndex rowIdx colIdx 1 1)
       ''borderTop,borderBottom,borderLeft,borderRight''"

definition border_requests :: "int \<Rightarrow> nat \<Rightarrow> int \<Rightarrow> request list" where
  "border_requests tableStartIndex numRows numCols =
     concat (map (\<lambda>rowIdx. map (\<lambda>colIdx. border_request tableStartIndex rowIdx colIdx)
                            [0..<nat numCols])
             [0..<numRows])"

definition bold_requests :: "paragraph_element list \<Rightarrow> request list" where
  "bold_requests paragraphElements =
     concat (map (\<lambda>elem.
               (case (textRun elem, pe_startIndex elem, pe_endIndex elem) of
                  (Some run, Some s, Some e) \<Rightarrow>
                    (let content = or_empty (run_content run)
                     in if length (trim content) > 0
                        then [UpdateTextStyle (Range s e) (TextStyleBold True) ''bold'']
                        else [])
                | _ \<Rightarrow> []))
             paragraphElements)"

definition header_element_requests :: "structural_element \<Rightarrow> request list" where
  "header_element_requests cellElement =
     (case el_paragraph cellElement of
        None \<Rightarrow> []
      | Some p \<Rightarrow>
          (case (startIndex cellElement, endIndex cellElement) of
             (Some paragraphStart, Some paragraphEnd) \<Rightarrow>
               [UpdateParagraphStyle (Range paragraphStart paragraphEnd)
                  (Alignment ''CENTER'') ''alignment'']
           | _ \<Rightarrow> [])
          @ bold_requests (or_empty (elements p)))"

definition background_request :: "int \<Rightarrow> nat \<Rightarrow> request" where
  "background_request tableStartIndex colIdx =
     UpdateTableCellStyle (BackgroundColor (RgbColor (9 / 10) (9 / 10) (9 / 10)))
       (TableRange tableStartIndex 0 colIdx 1 1) ''backgroundColor''"

definition header_cell_requests :: "int \<Rightarrow> nat \<Rightarrow> table_cell \<Rightarrow> request list" where
  "header_cell_requests tableStartIndex colIdx cell =
     concat (map header_element_requests (or_empty (cell_content cell)))
     @ [background_request tableStartIndex colIdx]"

definition header_requests :: "int \<Rightarrow> table_row list \<Rightarrow> request list" where
  "header_requests tableStartIndex updatedTableRows =
     (case updatedTableRows of
        [] \<Rightarrow> []
      | firstRow # _ \<Rightarrow>
          concat (map (\<lambda>colIdx. header_cell_requests tableStartIndex colIdx
                                  (or_empty (tableCells firstRow) ! colIdx))
                  [0..<length (or_empty (tableCells firstRow))]))"

definition formattingRequests :: "int \<Rightarrow> table \<Rightarrow> int \<Rightarrow> bool \<Rightarrow> request list" where
  "formattingRequests tableStartIndex updatedTable columns headerRow =
     (let updatedTableRows = or_empty (tableRows updatedTable);
          numRows = length updatedTableRows;
          numCols = num_or (case updatedTableRows of
                              [] \<Rightarrow> None
                            | r # _ \<Rightarrow> map_option (\<lambda>cells. int (length cells)) (tableCells r))
                           columns
      in border_requests tableStartIndex numRows numCols
         @ (if headerRow \<and> length updatedTableRows > 0
            then header_requests tableStartIndex updatedTableRows else []))"

text \<open>The body of the \<open>try\<close> block of \<open>insertTable\<close>, Step 1 to Step 6.\<close>

definition insertTable_try ::
  "world \<Rightarrow> string \<Rightarrow> int \<Rightarrow> int \<Rightarrow> int \<Rightarrow> js_string list list \<Rightarrow> bool
     \<Rightarrow> (error + unit) \<times> world" where
  "insertTable_try w documentId index rows columns data headerRow =
     (case documents_batchUpdate documentId [InsertText index [0x000A]] w of
        (Some e, w1) \<Rightarrow> (Inl e, w1)
      | (None, w1) \<Rightarrow>
     let tableIndex = index + 1 in
     (case documents_batchUpdate documentId [InsertTable rows columns tableIndex] w1 of
        (Some e, w2) \<Rightarrow> (Inl e, w2)
      | (None, w2) \<Rightarrow>
     (case documents_get documentId w2 of
        (Inl e, w3) \<Rightarrow> (Inl e, w3)
      | (Inr doc, w3) \<Rightarrow>
     (case find_table (content_or_empty doc) tableIndex of
        None \<Rightarrow> (Inl (Error ''Failed to find the inserted table in document''), w3)
      | Some (s, t) \<Rightarrow>
     let sortedInserts = sort_descending (cellInserts t data headerRow) in
     (case (if length sortedInserts > 0
            then documents_batchUpdate documentId (insertRequests sortedInserts) w3
            else (None, w3)) of
        (Some e, w4) \<Rightarrow> (Inl e, w4)
      | (None, w4) \<Rightarrow>
     (case documents_get documentId w4 of
        (Inl e, w5) \<Rightarrow> (Inl e, w5)
      | (Inr updatedDoc, w5) \<Rightarrow>
     (case find_table (content_or_empty updatedDoc) tableIndex of
        None \<Rightarrow> (Inr (), w5)
      | Some (tableStartIndex, updatedTable) \<Rightarrow>
     let requests = formattingRequests tableStartIndex updatedTable columns headerRow in
     if length requests > 0
     then (case documents_batchUpdate documentId requests w5 of
             (Some e, w6) \<Rightarrow> (Inl e, w6)
           | (None, w6) \<Rightarrow> (Inr (), w6))
     else (Inr (), w5))))))))"

definition insertTable ::
  "world \<Rightarrow> string \<Rightarrow> int \<Rightarrow> int \<Rightarrow> int \<Rightarrow> js_string list list \<Rightarrow> bool
     \<Rightarrow> (error + unit) \<times> world" where
  "insertTable w documentId index rows columns data headerRow =
     (case insertTable_try w documentId index rows columns data headerRow of
        (Inl e, w') \<Rightarrow> (Inl (Wrapped ''Failed to insert table'' e), w')
      | (Inr u, w') \<Rightarrow> (Inr u, w'))"

section \<open>Reading the calls of one operation\<close>

text \<open>The calls made between an earlier and a later state of the world.\<close>

definition calls_of :: "world \<Rightarrow> world \<Rightarrow> event list" where
  "calls_of w w' = drop (length (trace w)) (trace w')"

text \<open>All requests that a sequence of calls submits, batch after batch.\<close>

fun submitted_requests :: "event list \<Rightarrow> request list" where
  "submitted_requests [] = []"
| "submitted_requests (Get d # evs) = submitted_requests evs"
| "submitted_requests (BatchUpdate d rs # evs) = rs @ submitted_requests evs"

text \<open>
  The calls of Step 4 of \<open>insertTable\<close>: one batch when there is something to insert,
  none otherwise.
\<close>

definition fill_calls :: "string \<Rightarrow> table \<Rightarrow> js_string list list \<Rightarrow> bool \<Rightarrow> event list" where
  "fill_calls d t data headerRow =
     (if cellInserts t data headerRow = [] then []
      else [BatchUpdate d (insertRequests (sort_descending (cellInserts t data headerRow)))])"

text \<open>The requests that address a table cell.\<close>

fun is_cell_style :: "request \<Rightarrow> bool" where
  "is_cell_style (UpdateTableCellStyle style tr fm) = True"
| "is_cell_style r = False"

section \<open>Concrete documents and backends\<close>

text \<open>
  Snapshots of the shape the Docs API returns: a section break that ends at index 1,
  paragraphs whose last character is the newline, and tables whose cells hold one
  paragraph each. \<open>text_paragraph s txt\<close> is the paragraph that starts at \<open>s\<close> and
  holds \<open>txt\<close> and its newline in one text run; \<open>cell_at c txt\<close> is the cell that
  starts at \<open>c\<close>, its paragraph one index later.
\<close>

definition section_break :: structural_element where
  "section_break = StructuralElement None (Some 1) None None"

definition text_paragraph :: "int \<Rightarrow> js_string \<Rightarrow> structural_element" where
  "text_paragraph s txt =
     StructuralElement (Some s) (Some (s + int (length txt) + 1))
       (Some (Paragraph (Some [ParagraphElement (Some s) (Some (s + int (length txt) + 1))
                                 (Some (TextRun (Some (txt @ [0x000A]))))])))
       None"

definition cell_at :: "int \<Rightarrow> js_string \<Rightarrow> table_cell" where
  "cell_at c txt = TableCell (Some [text_paragraph (c + 1) txt])"

definition document_of :: "structural_element list \<Rightarrow> document" where
  "document_of els = Document (Some (Body (Some els)))"

text \<open>The empty document, and a document holding ten characters of text.\<close>

definition empty_document :: document where
  "empty_document = document_of [section_break, text_paragraph 1 []]"

definition ten_char_document :: document where
  "ten_char_document = document_of [section_break, text_paragraph 1 (js ''0123456789'')]"

text \<open>A paragraph followed by a table of one cell.\<close>

definition paragraph_then_table :: document where
  "paragraph_then_table =
     document_of
       [text_paragraph 1 (js ''abc''),
        StructuralElement (Some 5) (Some 9) None
          (Some (Table (Some [TableRow (Some [cell_at 6 []])])))]"

text \<open>
  The empty document after a newline at 1 and a 2 x 2 table at 2, and the same document
  after the cells have received A, B, C and D.
\<close>

definition empty_table :: table where
  "empty_table =
     Table (Some [TableRow (Some [cell_at 4 [], cell_at 6 []]),
                  TableRow (Some [cell_at 9 [], cell_at 11 []])])"

definition filled_table :: table where
  "filled_table =
     Table (Some [TableRow (Some [cell_at 4 (js ''A''), cell_at 7 (js ''B'')]),
                  TableRow (Some [cell_at 11 (js ''C''), cell_at 14 (js ''D'')])])"

text \<open>The table after B, C and D have been inserted and the first header cell left as
  it was created.\<close>

definition partly_filled_table :: table where
  "partly_filled_table =
     Table (Some [TableRow (Some [cell_at 4 [], cell_at 6 (js ''B'')]),
                  TableRow (Some [cell_at 10 (js ''C''), cell_at 13 (js ''D'')])])"

definition partly_filled_table_document :: document where
  "partly_filled_table_document =
     document_of
       [section_break, text_paragraph 1 [],
        StructuralElement (Some 2) (Some 16) None (Some partly_filled_table),
        text_paragraph 16 []]"

definition empty_table_document :: document where
  "empty_table_document =
     document_of
       [section_break, text_paragraph 1 [],
        StructuralElement (Some 2) (Some 13) None (Some empty_table),
        text_paragraph 13 []]"

definition filled_table_document :: document where
  "filled_table_document =
     document_of
       [section_break, text_paragraph 1 [],
        StructuralElement (Some 2) (Some 17) None (Some filled_table),
        text_paragraph 17 []]"

definition abcd :: "js_string list list" where
  "abcd = [[js ''A'', js ''B''], [js ''C'', js ''D'']]"

text \<open>
  A backend that accepts every batch and answers every read with the same document;
  one that rejects every batch; one that answers the reads of a table insertion with the
  two table documents; one that answers the second read with the table whose first
  header cell is unfilled; and one where the table is gone at the second read.
\<close>

definition fixed_world :: "document \<Rightarrow> world" where
  "fixed_world doc =
     \<lparr>snapshots = (\<lambda>h d. Inr doc), verdicts = (\<lambda>h d rs. None), trace = []\<rparr>"

definition rejecting_world :: world where
  "rejecting_world =
     \<lparr>snapshots = (\<lambda>h d. Inr empty_document),
      verdicts = (\<lambda>h d rs. Some (Error ''The caller does not have permission'')),
      trace = []\<rparr>"

definition table_world :: world where
  "table_world =
     \<lparr>snapshots = (\<lambda>h d. if length h \<le> 2 then Inr empty_table_document
                            else Inr filled_table_document),
      verdicts = (\<lambda>h d rs. None), trace = []\<rparr>"

definition unfilled_header_world :: world where
  "unfilled_header_world =
     \<lparr>snapshots = (\<lambda>h d. if length h \<le> 2 then Inr empty_table_document
                            else Inr partly_filled_table_document),
      verdicts = (\<lambda>h d rs. None), trace = []\<rparr>"

definition lost_table_world :: world where
  "lost_table_world =
     \<lparr>snapshots = (\<lambda>h d. if length h \<le> 2 then Inr empty_table_document
                            else Inr empty_document),
      verdicts = (\<lambda>h d rs. None), trace = []\<rparr>"

text \<open>
  A response without a body, a document of one paragraph only, and table data larger than
  a 2 x 2 table, with an empty string for the first header cell.
\<close>

definition bodiless_document :: document where
  "bodiless_document = Document None"

definition one_paragraph_document :: document where
  "one_paragraph_document = document_of [text_paragraph 1 (js ''0123456789'')]"

definition oversized :: "js_string list list" where
  "oversized = [[[], js ''B'', js ''X''], [js ''C'', js ''D''], [js ''Z'']]"

section \<open>The sort of Step 4\<close>


lemma sort_descending_Nil: "sort_descending xs = [] \<longleftrightarrow> xs = []"
  by (metis sort_descending_def set_sort set_empty)

lemma sort_descending_set: "set (sort_descending xs) = set xs"
  by (simp add: sort_descending_def)






section \<open>Every way in which \<open>insertTable\<close> can end\<close>

text \<open>
  One lemma for each exit of the \<open>try\<close> block, under the replies of the backend that
  lead there, and the case distinction over all of them.
\<close>

lemmas run_defs = insertTable_try_def documents_get_def documents_batchUpdate_def Let_def

lemma try_exit_newline:
  assumes "verdicts w (trace w) d [InsertText index [0x000A]] = Some e"
  shows "insertTable_try w d index rows columns data headerRow =
          (Inl e, w\<lparr>trace := trace w @ [BatchUpdate d [InsertText index [0x000A]]]\<rparr>)"
  using assms by (simp add: run_defs)

lemma try_exit_table:
  assumes "verdicts w (trace w) d [InsertText index [0x000A]] = None"
    and "verdicts w (trace w @ [BatchUpdate d [InsertText index [0x000A]]]) d
           [InsertTable rows columns (index + 1)] = Some e"
  shows "insertTable_try w d index rows columns data headerRow =
          (Inl e, w\<lparr>trace := trace w @ [BatchUpdate d [InsertText index [0x000A]],
             BatchUpdate d [InsertTable rows columns (index + 1)]]\<rparr>)"
  using assms by (simp add: run_defs)

lemma try_exit_read:
  assumes "verdicts w (trace w) d [InsertText index [0x000A]] = None"
    and "verdicts w (trace w @ [BatchUpdate d [InsertText index [0x000A]]]) d
           [InsertTable rows columns (index + 1)] = None"
    and "snapshots w (trace w @ [BatchUpdate d [InsertText index [0x000A]],
           BatchUpdate d [InsertTable rows columns (index + 1)]]) d = Inl e"
  shows "insertTable_try w d index rows columns data headerRow =
          (Inl e, w\<lparr>trace := trace w @ [BatchUpdate d [InsertText index [0x000A]],
             BatchUpdate d [InsertTable rows columns (index + 1)], Get d]\<rparr>)"
  using assms by (simp add: run_defs)

lemma try_exit_lookup:
  assumes "verdicts w (trace w) d [InsertText index [0x000A]] = None"
    and "verdicts w (trace w @ [BatchUpdate d [InsertText index [0x000A]]]) d
           [InsertTable rows columns (index + 1)] = None"
    and "snapshots w (trace w @ [BatchUpdate d [InsertText index [0x000A]],
           BatchUpdate d [InsertTable rows columns (index + 1)]]) d = Inr doc"
    and "find_table (content_or_empty doc) (index + 1) = None"
  shows "insertTable_try w d index rows columns data headerRow =
          (Inl (Error ''Failed to find the inserted table in document''),
           w\<lparr>trace := trace w @ [BatchUpdate d [InsertText index [0x000A]],
             BatchUpdate d [InsertTable rows columns (index + 1)], Get d]\<rparr>)"
  using assms by (simp add: run_defs)

lemma try_exit_fill:
  assumes "verdicts w (trace w) d [InsertText index [0x000A]] = None"
    and "verdicts w (trace w @ [BatchUpdate d [InsertText index [0x000A]]]) d
           [InsertTable rows columns (index + 1)] = None"
    and "snapshots w (trace w @ [BatchUpdate d [InsertText index [0x000A]],
           BatchUpdate d [InsertTable rows columns (index + 1)]]) d = Inr doc"
    and "find_table (content_or_empty doc) (index + 1) = Some (s, t)"
    and "cellInserts t data headerRow \<noteq> []"
    and "verdicts w (trace w @ [BatchUpdate d [InsertText index [0x000A]],
           BatchUpdate d [InsertTable rows columns (index + 1)], Get d]) d
           (insertRequests (sort_descending (cellInserts t data headerRow))) = Some e"
  shows "insertTable_try w d index rows columns data headerRow =
          (Inl e, w\<lparr>trace := trace w @ [BatchUpdate d [InsertText index [0x000A]],
             BatchUpdate d [InsertTable rows columns (index + 1)], Get d,
             BatchUpdate d (insertRequests (sort_descending (cellInserts t data headerRow)))]\<rparr>)"
  using assms by (simp add: run_defs sort_descending_Nil)

lemma try_exit_read2:
  assumes "verdicts w (trace w) d [InsertText index [0x000A]] = None"
    and "verdicts w (trace w @ [BatchUpdate d [InsertText index [0x000A]]]) d
           [InsertTable rows columns (index + 1)] = None"
    and "snapshots w (trace w @ [BatchUpdate d [InsertText index [0x000A]],
           BatchUpdate d [InsertTable rows columns (index + 1)]]) d = Inr doc"
    and "find_table (content_or_empty doc) (index + 1) = Some (s, t)"
    and "cellInserts t data headerRow = [] \<or>
         verdicts w (trace w @ [BatchUpdate d [InsertText index [0x000A]],
           BatchUpdate d [InsertTable rows columns (index + 1)], Get d]) d
           (insertRequests (sort_descending (cellInserts t data headerRow))) = None"
    and "snapshots w (trace w @ [BatchUpdate d [InsertText index [0x000A]],
           BatchUpdate d [InsertTable rows columns (index + 1)], Get d]
           @ fill_calls d t data headerRow) d = Inl e"
  shows "insertTable_try w d index rows columns data headerRow =
          (Inl e, w\<lparr>trace := trace w @ [BatchUpdate d [InsertText index [0x000A]],
             BatchUpdate d [InsertTable rows columns (index + 1)], Get d]
             @ fill_calls d t data headerRow @ [Get d]\<rparr>)"
  using assms by (cases "cellInserts t data headerRow = []")
    (simp_all add: run_defs sort_descending_Nil fill_calls_def)

lemma try_exit_lookup2:
  assumes "verdicts w (trace w) d [InsertText index [0x000A]] = None"
    and "verdicts w (trace w @ [BatchUpdate d [InsertText index [0x000A]]]) d
           [InsertTable rows columns (index + 1)] = None"
    and "snapshots w (trace w @ [BatchUpdate d [InsertText index [0x000A]],
           BatchUpdate d [InsertTable rows columns (index + 1)]]) d = Inr doc"
    and "find_table (content_or_empty doc) (index + 1) = Some (s, t)"
    and "cellInserts t data headerRow = [] \<or>
         verdicts w (trace w @ [BatchUpdate d [InsertText index [0x000A]],
           BatchUpdate d [InsertTable rows columns (index + 1)], Get d]) d
           (insertRequests (sort_descending (cellInserts t data headerRow))) = None"
    and "snapshots w (trace w @ [BatchUpdate d [InsertText index [0x000A]],
           BatchUpdate d [InsertTable rows columns (index + 1)], Get d]
           @ fill_calls d t data headerRow) d = Inr doc2"
    and "find_table (content_or_empty doc2) (index + 1) = None"
  shows "insertTable_try w d index rows columns data headerRow =
          (Inr (), w\<lparr>trace := trace w @ [BatchUpdate d [InsertText index [0x000A]],
             BatchUpdate d [InsertTable rows columns (index + 1)], Get d]
             @ fill_calls d t data headerRow @ [Get d]\<rparr>)"
  using assms by (cases "cellInserts t data headerRow = []")
    (simp_all add: run_defs sort_descending_Nil fill_calls_def)

lemma try_exit_format:
  assumes "verdicts w (trace w) d [InsertText index [0x000A]] = None"
    and "verdicts w (trace w @ [BatchUpdate d [InsertText index [0x000A]]]) d
           [InsertTable rows columns (index + 1)] = None"
    and "snapshots w (trace w @ [BatchUpdate d [InsertText index [0x000A]],
           BatchUpdate d [InsertTable rows columns (index + 1)]]) d = Inr doc"
    and "find_table (content_or_empty doc) (index + 1) = Some (s, t)"
    and "cellInserts t data headerRow = [] \<or>
         verdicts w (trace w @ [BatchUpdate d [InsertText index [0x000A]],
           BatchUpdate d [InsertTable rows columns (index + 1)], Get d]) d
           (insertRequests (sort_descending (cellInserts t data headerRow))) = None"
    and "snapshots w (trace w @ [BatchUpdate d [InsertText index [0x000A]],
           BatchUpdate d [InsertTable rows columns (index + 1)], Get d]
           @ fill_calls d t data headerRow) d = Inr doc2"
    and "find_table (content_or_empty doc2) (index + 1) = Some (s2, t2)"
  shows "insertTable_try w d index rows columns data headerRow =
          (if formattingRequests s2 t2 columns headerRow = []
           then (Inr (), w\<lparr>trace := trace w @ [BatchUpdate d [InsertText index [0x000A]],
             BatchUpdate d [InsertTable rows columns (index + 1)], Get d]
             @ fill_calls d t data headerRow @ [Get d]\<rparr>)
           else (case verdicts w (trace w @ [BatchUpdate d [InsertText index [0x000A]],
                   BatchUpdate d [InsertTable rows columns (index + 1)], Get d]
                   @ fill_calls d t data headerRow @ [Get d]) d
                   (formattingRequests s2 t2 columns headerRow) of
                   Some e \<Rightarrow> Inl e | None \<Rightarrow> Inr (),
                 w\<lparr>trace := trace w @ [BatchUpdate d [InsertText index [0x000A]],
             BatchUpdate d [InsertTable rows columns (index + 1)], Get d]
             @ fill_calls d t data headerRow
             @ [Get d, BatchUpdate d (formattingRequests s2 t2 columns headerRow)]\<rparr>))"
  using assms by (cases "cellInserts t data headerRow = []")
    (simp_all add: run_defs sort_descending_Nil fill_calls_def split: option.splits)

lemma snd_insertTable:
  "snd (insertTable w d index rows columns data headerRow) =
   snd (insertTable_try w d index rows columns data headerRow)"
  by (simp add: insertTable_def split: prod.splits sum.splits)

lemma fst_insertTable:
  "fst (insertTable w d index rows columns data headerRow) =
   (case fst (insertTable_try w d index rows columns data headerRow) of
      Inl e \<Rightarrow> Inl (Wrapped ''Failed to insert table'' e) | Inr u \<Rightarrow> Inr u)"
  by (simp add: insertTable_def split: prod.splits sum.splits)

lemma calls_of_append [simp]: "calls_of w (w\<lparr>trace := trace w @ evs\<rparr>) = evs"
  by (simp add: calls_of_def)

lemma insertTable_calls_cases:
  fixes w d index rows columns data headerRow
  defines "calls \<equiv> calls_of w (snd (insertTable w d index rows columns data headerRow))"
    and "B1 \<equiv> BatchUpdate d [InsertText index [0x000A]]"
    and "B2 \<equiv> BatchUpdate d [InsertTable rows columns (index + 1)]"
  shows "(calls = [B1] \<and> verdicts w (trace w) d [InsertText index [0x000A]] \<noteq> None)
    \<or> (calls = [B1, B2] \<and> verdicts w (trace w) d [InsertText index [0x000A]] = None
         \<and> verdicts w (trace w @ [B1]) d [InsertTable rows columns (index + 1)] \<noteq> None)
    \<or> (calls = [B1, B2, Get d] \<and> verdicts w (trace w) d [InsertText index [0x000A]] = None
         \<and> verdicts w (trace w @ [B1]) d [InsertTable rows columns (index + 1)] = None
         \<and> (case snapshots w (trace w @ [B1, B2]) d of Inl e \<Rightarrow> True
             | Inr doc \<Rightarrow> find_table (content_or_empty doc) (index + 1) = None))
    \<or> (\<exists>doc s t. verdicts w (trace w) d [InsertText index [0x000A]] = None
          \<and> verdicts w (trace w @ [B1]) d [InsertTable rows columns (index + 1)] = None
          \<and> snapshots w (trace w @ [B1, B2]) d = Inr doc
          \<and> find_table (content_or_empty doc) (index + 1) = Some (s, t)
          \<and> (calls = [B1, B2, Get d] @ fill_calls d t data headerRow
              \<or> calls = [B1, B2, Get d] @ fill_calls d t data headerRow @ [Get d]
              \<or> (\<exists>doc2 s2 t2.
                    snapshots w (trace w @ [B1, B2, Get d] @ fill_calls d t data headerRow) d
                      = Inr doc2
                    \<and> find_table (content_or_empty doc2) (index + 1) = Some (s2, t2)
                    \<and> calls = [B1, B2, Get d] @ fill_calls d t data headerRow @ [Get d,
                         BatchUpdate d (formattingRequests s2 t2 columns headerRow)])))"
proof (cases "verdicts w (trace w) d [InsertText index [0x000A]]")
  case (Some e)
  then show ?thesis
    by (simp add: calls_def B1_def snd_insertTable try_exit_newline)
next
  case v1: None
  show ?thesis
  proof (cases "verdicts w (trace w @ [B1]) d [InsertTable rows columns (index + 1)]")
    case (Some e)
    then show ?thesis using v1
      by (simp add: calls_def B1_def B2_def snd_insertTable try_exit_table)
  next
    case v2: None
    show ?thesis
    proof (cases "snapshots w (trace w @ [B1, B2]) d")
      case (Inl e)
      then show ?thesis using v1 v2
        by (simp add: calls_def B1_def B2_def snd_insertTable try_exit_read)
    next
      case (Inr doc)
      note s1 = this
      show ?thesis
      proof (cases "find_table (content_or_empty doc) (index + 1)")
        case None
        then show ?thesis using v1 v2 s1
          by (simp add: calls_def B1_def B2_def snd_insertTable try_exit_lookup)
      next
        case (Some st)
        then obtain s t where f1: "find_table (content_or_empty doc) (index + 1) = Some (s, t)"
          by (cases st) simp
        show ?thesis
        proof (cases "cellInserts t data headerRow = [] \<or>
            verdicts w (trace w @ [B1, B2, Get d]) d
              (insertRequests (sort_descending (cellInserts t data headerRow))) = None")
          case False
          then obtain e where ne: "cellInserts t data headerRow \<noteq> []"
            and v3: "verdicts w (trace w @ [B1, B2, Get d]) d
              (insertRequests (sort_descending (cellInserts t data headerRow))) = Some e"
            by auto
          have "calls = [B1, B2, Get d] @ fill_calls d t data headerRow"
            using v1 v2 s1 f1 ne v3 try_exit_fill [of w d index rows columns doc s t data headerRow e]
            by (simp add: calls_def B1_def B2_def snd_insertTable fill_calls_def)
          then show ?thesis using v1 v2 s1 f1 unfolding B1_def B2_def by blast
        next
          case ok: True
          show ?thesis
          proof (cases "snapshots w (trace w @ [B1, B2, Get d] @ fill_calls d t data headerRow) d")
            case (Inl e)
            have "calls = [B1, B2, Get d] @ fill_calls d t data headerRow @ [Get d]"
              using v1 v2 s1 f1 ok Inl
                try_exit_read2 [of w d index rows columns doc s t data headerRow e]
              by (simp add: calls_def B1_def B2_def snd_insertTable)
            then show ?thesis using v1 v2 s1 f1 unfolding B1_def B2_def by blast
          next
            case (Inr doc2)
            note s2 = this
            show ?thesis
            proof (cases "find_table (content_or_empty doc2) (index + 1)")
              case None
              have "calls = [B1, B2, Get d] @ fill_calls d t data headerRow @ [Get d]"
                using v1 v2 s1 f1 ok s2 None
                  try_exit_lookup2 [of w d index rows columns doc s t data headerRow doc2]
                by (simp add: calls_def B1_def B2_def snd_insertTable)
              then show ?thesis using v1 v2 s1 f1 unfolding B1_def B2_def by blast
            next
              case (Some st2)
              then obtain s2' t2 where
                f2: "find_table (content_or_empty doc2) (index + 1) = Some (s2', t2)"
                by (cases st2) simp
              have "calls = [B1, B2, Get d] @ fill_calls d t data headerRow @ [Get d]
                  \<or> calls = [B1, B2, Get d] @ fill_calls d t data headerRow @ [Get d,
                         BatchUpdate d (formattingRequests s2' t2 columns headerRow)]"
                using v1 v2 s1 f1 ok s2 f2
                  try_exit_format [of w d index rows columns doc s t data headerRow doc2 s2' t2]
                by (simp add: calls_def B1_def B2_def snd_insertTable split: if_splits)
              then show ?thesis using v1 v2 s1 f1 s2 f2 unfolding B1_def B2_def by blast
            qed
          qed
        qed
      qed
    qed
  qed
qed

lemma insertTable_prefix2:
  assumes "verdicts w (trace w) d [InsertText index [0x000A]] = None"
  shows "take 2 (calls_of w (snd (insertTable w d index rows columns data headerRow))) =
          [BatchUpdate d [InsertText index [0x000A]],
           BatchUpdate d [InsertTable rows columns (index + 1)]]"
  using insertTable_calls_cases [of w d index rows columns data headerRow] assms
  by (elim disjE exE conjE) simp_all


lemma submitted_requests_append [simp]:
  "submitted_requests (xs @ ys) = submitted_requests xs @ submitted_requests ys"
  by (induction xs rule: submitted_requests.induct) simp_all

lemma submitted_fill_calls [simp]:
  "submitted_requests (fill_calls d t data headerRow) =
   insertRequests (sort_descending (cellInserts t data headerRow))"
  by (simp add: fill_calls_def insertRequests_def sort_descending_def)

lemma insertRequestsD:
  "r \<in> set (insertRequests inserts) \<Longrightarrow> \<exists>i txt. r = InsertText i txt"
  by (auto simp: insertRequests_def)

lemma insertTable_requests:
  assumes "r \<in> set (submitted_requests
                     (calls_of w (snd (insertTable w d index rows columns data headerRow))))"
  shows "r = InsertText index [0x000A] \<or> r = InsertTable rows columns (index + 1)
     \<or> (\<exists>h doc s t. snapshots w h d = Inr doc
           \<and> find_table (content_or_empty doc) (index + 1) = Some (s, t)
           \<and> r \<in> set (insertRequests (sort_descending (cellInserts t data headerRow))))
     \<or> (\<exists>h doc s t. snapshots w h d = Inr doc
           \<and> find_table (content_or_empty doc) (index + 1) = Some (s, t)
           \<and> r \<in> set (formattingRequests s t columns headerRow))"
proof -
  let ?calls = "calls_of w (snd (insertTable w d index rows columns data headerRow))"
  let ?B1 = "BatchUpdate d [InsertText index [0x000A]]"
  let ?B2 = "BatchUpdate d [InsertTable rows columns (index + 1)]"
  consider "?calls = [?B1]" | "?calls = [?B1, ?B2]" | "?calls = [?B1, ?B2, Get d]"
    | doc s t where "snapshots w (trace w @ [?B1, ?B2]) d = Inr doc"
        "find_table (content_or_empty doc) (index + 1) = Some (s, t)"
        "?calls = [?B1, ?B2, Get d] @ fill_calls d t data headerRow
         \<or> ?calls = [?B1, ?B2, Get d] @ fill_calls d t data headerRow @ [Get d]"
    | doc s t doc2 s2 t2 where "snapshots w (trace w @ [?B1, ?B2]) d = Inr doc"
        "find_table (content_or_empty doc) (index + 1) = Some (s, t)"
        "snapshots w (trace w @ [?B1, ?B2, Get d] @ fill_calls d t data headerRow) d = Inr doc2"
        "find_table (content_or_empty doc2) (index + 1) = Some (s2, t2)"
        "?calls = [?B1, ?B2, Get d] @ fill_calls d t data headerRow @ [Get d,
                         BatchUpdate d (formattingRequests s2 t2 columns headerRow)]"
    using insertTable_calls_cases [of w d index rows columns data headerRow] by (elim disjE exE conjE) blast+
  then show ?thesis
  proof cases
    case 1
    then show ?thesis using assms by simp
  next
    case 2
    then show ?thesis using assms by auto
  next
    case 3
    then show ?thesis using assms by auto
  next
    case 4
    from 4(3) assms have "r = InsertText index [0x000A] \<or> r = InsertTable rows columns (index + 1)
      \<or> r \<in> set (insertRequests (sort_descending (cellInserts t data headerRow)))"
      by auto
    then show ?thesis using 4(1,2) by blast
  next
    case 5
    from 5(5) assms have "r = InsertText index [0x000A] \<or> r = InsertTable rows columns (index + 1)
      \<or> r \<in> set (insertRequests (sort_descending (cellInserts t data headerRow)))
      \<or> r \<in> set (formattingRequests s2 t2 columns headerRow)"
      by auto
    then show ?thesis using 5(1-4) by blast
  qed
qed

section \<open>What the batches of \<open>insertTable\<close> hold\<close>

lemma border_requestsD:
  "r \<in> set (border_requests tsi numRows numCols) \<Longrightarrow>
     \<exists>rowIdx colIdx. rowIdx < numRows \<and> colIdx < nat numCols
        \<and> r = border_request tsi rowIdx colIdx"
  by (auto simp: border_requests_def) blast

lemma bold_requestsD:
  assumes "r \<in> set (bold_requests paragraphElements)"
  shows "\<exists>elem run s e. elem \<in> set paragraphElements \<and> textRun elem = Some run
           \<and> pe_startIndex elem = Some s \<and> pe_endIndex elem = Some e
           \<and> length (trim (or_empty (run_content run))) > 0
           \<and> r = UpdateTextStyle (Range s e) (TextStyleBold True) ''bold''"
proof -
  from assms obtain elem where el: "elem \<in> set paragraphElements"
    and r: "r \<in> set (case (textRun elem, pe_startIndex elem, pe_endIndex elem) of
                  (Some run, Some s, Some e) \<Rightarrow>
                    (if length (trim (or_empty (run_content run))) > 0
                     then [UpdateTextStyle (Range s e) (TextStyleBold True) ''bold'']
                     else [])
                | _ \<Rightarrow> [])"
    by (auto simp: bold_requests_def Let_def)
  from r obtain run s e where "textRun elem = Some run" "pe_startIndex elem = Some s"
    "pe_endIndex elem = Some e" "length (trim (or_empty (run_content run))) > 0"
    "r = UpdateTextStyle (Range s e) (TextStyleBold True) ''bold''"
    by (cases "textRun elem"; cases "pe_startIndex elem"; cases "pe_endIndex elem")
       (auto split: if_splits)
  with el show ?thesis by blast
qed

lemma header_element_requestsD:
  assumes "r \<in> set (header_element_requests cellElement)"
  shows "\<exists>p s e. el_paragraph cellElement = Some p
           \<and> (startIndex cellElement = Some s \<and> endIndex cellElement = Some e
                \<and> r = UpdateParagraphStyle (Range s e) (Alignment ''CENTER'') ''alignment''
              \<or> (\<exists>elem run. elem \<in> set (or_empty (elements p)) \<and> textRun elem = Some run
                    \<and> pe_startIndex elem = Some s \<and> pe_endIndex elem = Some e
                    \<and> length (trim (or_empty (run_content run))) > 0
                    \<and> r = UpdateTextStyle (Range s e) (TextStyleBold True) ''bold''))"
proof (cases "el_paragraph cellElement")
  case None
  then show ?thesis using assms by (simp add: header_element_requests_def)
next
  case (Some p)
  from assms Some consider
    (center) s e where "startIndex cellElement = Some s" "endIndex cellElement = Some e"
      "r = UpdateParagraphStyle (Range s e) (Alignment ''CENTER'') ''alignment''"
  | (bold) "r \<in> set (bold_requests (or_empty (elements p)))"
    by (cases "startIndex cellElement"; cases "endIndex cellElement")
       (auto simp: header_element_requests_def)
  then show ?thesis
  proof cases
    case center
    then show ?thesis using Some by blast
  next
    case bold
    from bold_requestsD [OF this] show ?thesis using Some by blast
  qed
qed

lemma header_cell_requestsD:
  assumes "r \<in> set (header_cell_requests tsi colIdx cell)"
  shows "r = background_request tsi colIdx
     \<or> (\<exists>cellElement. cellElement \<in> set (or_empty (cell_content cell))
           \<and> r \<in> set (header_element_requests cellElement))"
  using assms by (auto simp: header_cell_requests_def)

lemma header_requestsD:
  assumes "r \<in> set (header_requests tsi updatedTableRows)"
  shows "\<exists>firstRow rest colIdx. updatedTableRows = firstRow # rest
           \<and> colIdx < length (or_empty (tableCells firstRow))
           \<and> r \<in> set (header_cell_requests tsi colIdx (or_empty (tableCells firstRow) ! colIdx))"
  using assms by (cases updatedTableRows) (auto simp: header_requests_def)

lemma formattingRequestsD:
  assumes "r \<in> set (formattingRequests tsi ut columns headerRow)"
  shows "(\<exists>rowIdx colIdx. rowIdx < length (or_empty (tableRows ut))
            \<and> r = border_request tsi rowIdx colIdx)
     \<or> (headerRow \<and> r \<in> set (header_requests tsi (or_empty (tableRows ut))))"
  using assms
  by (auto simp: formattingRequests_def Let_def split: if_splits dest: border_requestsD)

lemma header_phase_row0:
  assumes "r \<in> set (header_requests tsi updatedTableRows)"
  shows "\<exists>firstRow rest colIdx. updatedTableRows = firstRow # rest
      \<and> colIdx < length (or_empty (tableCells firstRow))
      \<and> (r = UpdateTableCellStyle (BackgroundColor (RgbColor (9 / 10) (9 / 10) (9 / 10)))
                (TableRange tsi 0 colIdx 1 1) ''backgroundColor''
         \<or> (\<exists>cellElement p s e.
               cellElement \<in> set (or_empty (cell_content (or_empty (tableCells firstRow) ! colIdx)))
               \<and> el_paragraph cellElement = Some p
               \<and> (startIndex cellElement = Some s \<and> endIndex cellElement = Some e
                    \<and> r = UpdateParagraphStyle (Range s e) (Alignment ''CENTER'') ''alignment''
                  \<or> (\<exists>elem run. elem \<in> set (or_empty (elements p)) \<and> textRun elem = Some run
                        \<and> pe_startIndex elem = Some s \<and> pe_endIndex elem = Some e
                        \<and> length (trim (or_empty (run_content run))) > 0
                        \<and> r = UpdateTextStyle (Range s e) (TextStyleBold True) ''bold''))))"
proof -
  from header_requestsD [OF assms] obtain firstRow rest colIdx where
    a: "updatedTableRows = firstRow # rest" "colIdx < length (or_empty (tableCells firstRow))"
    and b: "r \<in> set (header_cell_requests tsi colIdx (or_empty (tableCells firstRow) ! colIdx))"
    by blast
  from header_cell_requestsD [OF b] show ?thesis
  proof
    assume "r = background_request tsi colIdx"
    then show ?thesis using a by (simp add: background_request_def)
  next
    assume "\<exists>cellElement.
      cellElement \<in> set (or_empty (cell_content (or_empty (tableCells firstRow) ! colIdx)))
      \<and> r \<in> set (header_element_requests cellElement)"
    then obtain cellElement where
      c: "cellElement \<in> set (or_empty (cell_content (or_empty (tableCells firstRow) ! colIdx)))"
      and d: "r \<in> set (header_element_requests cellElement)" by blast
    from header_element_requestsD [OF d] c a show ?thesis by blast
  qed
qed

lemma formatting_borderD:
  assumes "border_request tsi' rowIdx colIdx \<in> set (formattingRequests tsi ut columns headerRow)"
  shows "tsi' = tsi \<and> rowIdx < length (or_empty (tableRows ut))
     \<and> (colIdx < length (or_empty (tableCells (or_empty (tableRows ut) ! 0)))
        \<or> (or_empty (tableCells (or_empty (tableRows ut) ! 0)) = [] \<and> colIdx < nat columns))"
proof -
  have nh: "border_request tsi' rowIdx colIdx \<notin> set (header_requests tsi (or_empty (tableRows ut)))"
  proof
    assume "border_request tsi' rowIdx colIdx \<in> set (header_requests tsi (or_empty (tableRows ut)))"
    from header_phase_row0 [OF this] show False by (auto simp: border_request_def)
  qed
  with assms have "border_request tsi' rowIdx colIdx \<in> set (border_requests tsi
      (length (or_empty (tableRows ut)))
      (num_or (case or_empty (tableRows ut) of [] \<Rightarrow> None
               | r # _ \<Rightarrow> map_option (\<lambda>cells. int (length cells)) (tableCells r)) columns))"
    by (auto simp: formattingRequests_def Let_def split: if_splits)
  from border_requestsD [OF this]
  have a: "tsi' = tsi" "rowIdx < length (or_empty (tableRows ut))"
    and b: "colIdx < nat (num_or (case or_empty (tableRows ut) of [] \<Rightarrow> None
               | r # _ \<Rightarrow> map_option (\<lambda>cells. int (length cells)) (tableCells r)) columns)"
    by (auto simp: border_request_def)
  from a(2) obtain r0 rest where rows: "or_empty (tableRows ut) = r0 # rest"
    by (cases "or_empty (tableRows ut)") auto
  from b rows have "colIdx < length (or_empty (tableCells r0))
        \<or> (or_empty (tableCells r0) = [] \<and> colIdx < nat columns)"
    by (cases "tableCells r0") (auto split: if_splits)
  with a rows show ?thesis by simp
qed

lemma filter_bold_requests: "filter is_cell_style (bold_requests es) = []"
  by (induction es)
     (auto simp: bold_requests_def Let_def split: option.splits)

lemma filter_header_element: "filter is_cell_style (header_element_requests ce) = []"
  by (auto simp: header_element_requests_def filter_bold_requests split: option.splits)

lemma filter_header_cell:
  "filter is_cell_style (header_cell_requests tsi colIdx cell) = [background_request tsi colIdx]"
proof -
  have "filter is_cell_style (concat (map header_element_requests xs)) = []" for xs
    by (induction xs) (simp_all add: filter_header_element)
  then show ?thesis by (simp add: header_cell_requests_def background_request_def)
qed

lemma filter_header_requests:
  "filter is_cell_style (header_requests tsi updatedTableRows) =
     (case updatedTableRows of [] \<Rightarrow> []
      | firstRow # _ \<Rightarrow> map (background_request tsi) [0..<length (or_empty (tableCells firstRow))])"
proof (cases updatedTableRows)
  case Nil
  then show ?thesis by (simp add: header_requests_def)
next
  case (Cons firstRow rest)
  have "filter is_cell_style (concat (map (\<lambda>colIdx. header_cell_requests tsi colIdx (cs ! colIdx)) js))
        = map (background_request tsi) js" for cs js
    by (induction js) (simp_all add: filter_header_cell)
  then show ?thesis using Cons by (simp add: header_requests_def)
qed

lemma filter_border_requests:
  "filter is_cell_style (border_requests tsi numRows numCols) = border_requests tsi numRows numCols"
  by (simp add: border_requests_def border_request_def filter_concat o_def filter_map)

lemma filter_formattingRequests:
  "filter is_cell_style (formattingRequests tsi ut columns headerRow) =
     (let shape = map (\<lambda>row. length (or_empty (tableCells row))) (or_empty (tableRows ut))
      in border_requests tsi (length shape)
           (num_or (case shape of [] \<Rightarrow> None | n # _ \<Rightarrow> Some (int n)) columns)
         @ (case shape of [] \<Rightarrow> []
            | n # _ \<Rightarrow> if headerRow then map (background_request tsi) [0..<n] else []))"
proof (cases "or_empty (tableRows ut)")
  case Nil
  then show ?thesis
    by (simp add: formattingRequests_def Let_def filter_border_requests)
next
  case (Cons r0 rest)
  then show ?thesis
    by (cases "tableCells r0")
       (simp_all add: formattingRequests_def Let_def filter_border_requests filter_header_requests)
qed

lemma cellInserts_truncate:
  "cellInserts t data headerRow =
   cellInserts t
     (map (\<lambda>rowIdx. take (length (or_empty (tableCells (or_empty (tableRows t) ! rowIdx))))
                       (data ! rowIdx))
          [0..<min (length (or_empty (tableRows t))) (length data)])
     headerRow"
proof -
  let ?rows = "or_empty (tableRows t)"
  let ?n = "min (length ?rows) (length data)"
  let ?k = "\<lambda>rowIdx. length (or_empty (tableCells (?rows ! rowIdx)))"
  let ?data' = "map (\<lambda>rowIdx. take (?k rowIdx) (data ! rowIdx)) [0..<?n]"
  have len: "min (length ?rows) (length ?data') = ?n" by simp
  have row: "?data' ! rowIdx = take (?k rowIdx) (data ! rowIdx)" if "rowIdx < ?n" for rowIdx
    using that by simp
  have inner:
    "map (\<lambda>colIdx. cell_inserts_of headerRow rowIdx
                      (or_empty (tableCells (?rows ! rowIdx)) ! colIdx)
                      (?data' ! rowIdx ! colIdx))
         [0..<min (?k rowIdx) (length (?data' ! rowIdx))]
     = map (\<lambda>colIdx. cell_inserts_of headerRow rowIdx
                      (or_empty (tableCells (?rows ! rowIdx)) ! colIdx)
                      (data ! rowIdx ! colIdx))
         [0..<min (?k rowIdx) (length (data ! rowIdx))]"
    if "rowIdx < ?n" for rowIdx
  proof (rule map_cong)
    show "[0..<min (?k rowIdx) (length (?data' ! rowIdx))]
        = [0..<min (?k rowIdx) (length (data ! rowIdx))]"
      unfolding row [OF that] by (simp add: min.commute)
  next
    fix colIdx assume "colIdx \<in> set [0..<min (?k rowIdx) (length (data ! rowIdx))]"
    then have "take (?k rowIdx) (data ! rowIdx) ! colIdx = data ! rowIdx ! colIdx" by simp
    then show "cell_inserts_of headerRow rowIdx
                      (or_empty (tableCells (?rows ! rowIdx)) ! colIdx)
                      (?data' ! rowIdx ! colIdx)
        = cell_inserts_of headerRow rowIdx
                      (or_empty (tableCells (?rows ! rowIdx)) ! colIdx)
                      (data ! rowIdx ! colIdx)"
      unfolding row [OF that] by simp
  qed
  have "map (\<lambda>rowIdx. concat (map (\<lambda>colIdx. cell_inserts_of headerRow rowIdx
                      (or_empty (tableCells (?rows ! rowIdx)) ! colIdx)
                      (?data' ! rowIdx ! colIdx))
         [0..<min (?k rowIdx) (length (?data' ! rowIdx))])) [0..<?n]
      = map (\<lambda>rowIdx. concat (map (\<lambda>colIdx. cell_inserts_of headerRow rowIdx
                      (or_empty (tableCells (?rows ! rowIdx)) ! colIdx)
                      (data ! rowIdx ! colIdx))
         [0..<min (?k rowIdx) (length (data ! rowIdx))])) [0..<?n]"
  proof (rule map_cong)
    fix rowIdx assume "rowIdx \<in> set [0..<?n]"
    then have "rowIdx < ?n" by simp
    from inner [OF this]
    show "concat (map (\<lambda>colIdx. cell_inserts_of headerRow rowIdx
                      (or_empty (tableCells (?rows ! rowIdx)) ! colIdx)
                      (?data' ! rowIdx ! colIdx))
         [0..<min (?k rowIdx) (length (?data' ! rowIdx))])
      = concat (map (\<lambda>colIdx. cell_inserts_of headerRow rowIdx
                      (or_empty (tableCells (?rows ! rowIdx)) ! colIdx)
                      (data ! rowIdx ! colIdx))
         [0..<min (?k rowIdx) (length (data ! rowIdx))])"
      by (rule arg_cong)
  qed (rule refl)
  then have "concat (map (\<lambda>rowIdx. concat (map (\<lambda>colIdx. cell_inserts_of headerRow rowIdx
                      (or_empty (tableCells (?rows ! rowIdx)) ! colIdx)
                      (?data' ! rowIdx ! colIdx))
         [0..<min (?k rowIdx) (length (?data' ! rowIdx))]))
         [0..<min (length ?rows) (length ?data')])
      = concat (map (\<lambda>rowIdx. concat (map (\<lambda>colIdx. cell_inserts_of headerRow rowIdx
                      (or_empty (tableCells (?rows ! rowIdx)) ! colIdx)
                      (data ! rowIdx ! colIdx))
         [0..<min (?k rowIdx) (length (data ! rowIdx))])) [0..<?n])"
    by (simp only: len)
  then have "cellInserts t ?data' headerRow = cellInserts t data headerRow"
    by (simp only: cellInserts_def)
  then show ?thesis by (rule sym)
qed

lemma cell_inserts_ofD:
  assumes "ins \<in> set (cell_inserts_of headerRow rowIdx cell cellContent)"
  shows "cellContent \<noteq> [] \<and> ci_text ins = cellContent
     \<and> first_paragraph_start (or_empty (cell_content cell)) = Some (ci_index ins)
     \<and> isHeader ins = (headerRow \<and> rowIdx = 0)"
proof (cases "cellContent = []")
  case True
  with assms show ?thesis by (simp add: cell_inserts_of_def)
next
  case False
  with assms show ?thesis
    by (cases "first_paragraph_start (or_empty (cell_content cell))")
       (simp_all add: cell_inserts_of_def)
qed

lemma cellInsertsD:
  assumes "ins \<in> set (cellInserts t data headerRow)"
  shows "\<exists>rowIdx colIdx. rowIdx < length (or_empty (tableRows t)) \<and> rowIdx < length data
     \<and> colIdx < length (or_empty (tableCells (or_empty (tableRows t) ! rowIdx)))
     \<and> colIdx < length (data ! rowIdx)
     \<and> data ! rowIdx ! colIdx \<noteq> [] \<and> ci_text ins = data ! rowIdx ! colIdx
     \<and> first_paragraph_start
          (or_empty (cell_content (or_empty (tableCells (or_empty (tableRows t) ! rowIdx)) ! colIdx)))
         = Some (ci_index ins)
     \<and> isHeader ins = (headerRow \<and> rowIdx = 0)"
proof -
  from assms obtain rowIdx colIdx where
    "rowIdx < length (or_empty (tableRows t))" "rowIdx < length data"
    "colIdx < length (or_empty (tableCells (or_empty (tableRows t) ! rowIdx)))"
    "colIdx < length (data ! rowIdx)"
    "ins \<in> set (cell_inserts_of headerRow rowIdx
                   (or_empty (tableCells (or_empty (tableRows t) ! rowIdx)) ! colIdx)
                   (data ! rowIdx ! colIdx))"
    by (auto simp: cellInserts_def)
  with cell_inserts_ofD [OF this(5)] show ?thesis by blast
qed

lemma trim_newline: "trim [0x000A] = []"
  by (simp add: trim_def isWhiteSpace_def)

lemma header_unfilled_cell:
  "header_cell_requests tsi colIdx
     (TableCell (Some [StructuralElement (Some s) (Some e)
        (Some (Paragraph (Some [ParagraphElement (Some s) (Some e)
                                  (Some (TextRun (Some [0x000A])))]))) None])) =
     [UpdateParagraphStyle (Range s e) (Alignment ''CENTER'') ''alignment'',
      UpdateTableCellStyle (BackgroundColor (RgbColor (9 / 10) (9 / 10) (9 / 10)))
        (TableRange tsi 0 colIdx 1 1) ''backgroundColor'']"
  by (simp add: header_cell_requests_def header_element_requests_def bold_requests_def
      background_request_def trim_newline)

lemma updateDocument_calls:
  "snapshots w (trace w) documentId = Inr doc \<Longrightarrow>
   calls_of w (snd (updateDocument w documentId text)) =
     [Get documentId, BatchUpdate documentId
        ((if num_or (if content_or_empty doc = [] then None
                     else endIndex (last (content_or_empty doc))) 1 > 2
          then [DeleteContentRange (Range 1 (num_or (if content_or_empty doc = [] then None
                     else endIndex (last (content_or_empty doc))) 1 - 1))] else [])
         @ [InsertText 1 text])]"
  by (simp add: updateDocument_def documents_get_def documents_batchUpdate_def calls_of_def Let_def
      split: option.splits)

lemma appendText_calls:
  "snapshots w (trace w) documentId = Inr doc \<Longrightarrow>
   calls_of w (snd (appendText w documentId text)) =
     [Get documentId, BatchUpdate documentId
        [InsertText (num_or (if content_or_empty doc = [] then None
                             else endIndex (last (content_or_empty doc))) 2 - 1) text]]"
  by (simp add: appendText_def documents_get_def documents_batchUpdate_def calls_of_def Let_def
      split: option.splits)

lemma insertTable_inserts:
  assumes "InsertText i txt \<in> set (submitted_requests
              (calls_of w (snd (insertTable w d index rows columns data headerRow))))"
  shows "(i = index \<and> txt = [0x000A])
     \<or> (\<exists>h doc s t rowIdx colIdx. snapshots w h d = Inr doc
           \<and> find_table (content_or_empty doc) (index + 1) = Some (s, t)
           \<and> rowIdx < length (or_empty (tableRows t)) \<and> rowIdx < length data
           \<and> colIdx < length (or_empty (tableCells (or_empty (tableRows t) ! rowIdx)))
           \<and> colIdx < length (data ! rowIdx)
           \<and> data ! rowIdx ! colIdx \<noteq> [] \<and> txt = data ! rowIdx ! colIdx
           \<and> first_paragraph_start
                (or_empty (cell_content
                   (or_empty (tableCells (or_empty (tableRows t) ! rowIdx)) ! colIdx)))
               = Some i)"
proof -
  from insertTable_requests [OF assms] consider
    (newline) "i = index" "txt = [0x000A]"
  | (fill) h doc s t where "snapshots w h d = Inr doc"
      "find_table (content_or_empty doc) (index + 1) = Some (s, t)"
      "InsertText i txt \<in> set (insertRequests (sort_descending (cellInserts t data headerRow)))"
  | (format) s t where
      "InsertText i txt \<in> set (formattingRequests s t columns headerRow)"
    by auto
  then show ?thesis
  proof cases
    case newline
    then show ?thesis by simp
  next
    case fill
    from fill(3) obtain ins where ins: "ins \<in> set (cellInserts t data headerRow)"
      and i: "i = ci_index ins" and tx: "txt = ci_text ins"
      by (auto simp: insertRequests_def sort_descending_set)
    from cellInsertsD [OF ins] obtain rowIdx colIdx where
      "rowIdx < length (or_empty (tableRows t))" "rowIdx < length data"
      "colIdx < length (or_empty (tableCells (or_empty (tableRows t) ! rowIdx)))"
      "colIdx < length (data ! rowIdx)"
      "data ! rowIdx ! colIdx \<noteq> []" "ci_text ins = data ! rowIdx ! colIdx"
      "first_paragraph_start
          (or_empty (cell_content (or_empty (tableCells (or_empty (tableRows t) ! rowIdx)) ! colIdx)))
         = Some (ci_index ins)"
      by blast
    with fill(1,2) i tx show ?thesis by blast
  next
    case format
    from formattingRequestsD [OF format] have False
    proof (elim disjE exE conjE)
      fix rowIdx colIdx assume "InsertText i txt = border_request s rowIdx colIdx"
      then show False by (simp add: border_request_def)
    next
      assume "InsertText i txt \<in> set (header_requests s (or_empty (tableRows t)))"
      from header_phase_row0 [OF this] show False by auto
    qed
    then show ?thesis ..
  qed
qed

lemma insertTable_truncate:
  assumes "verdicts w (trace w) d [InsertText index [0x000A]] = None"
    and "verdicts w (trace w @ [BatchUpdate d [InsertText index [0x000A]]]) d
           [InsertTable rows columns (index + 1)] = None"
    and "snapshots w (trace w @ [BatchUpdate d [InsertText index [0x000A]],
           BatchUpdate d [InsertTable rows columns (index + 1)]]) d = Inr doc"
    and "find_table (content_or_empty doc) (index + 1) = Some (s, t)"
  shows "insertTable w d index rows columns data headerRow =
         insertTable w d index rows columns
           (map (\<lambda>rowIdx. take (length (or_empty (tableCells (or_empty (tableRows t) ! rowIdx))))
                             (data ! rowIdx))
                [0..<min (length (or_empty (tableRows t))) (length data)])
           headerRow"
proof -
  have eq: "cellInserts t
           (map (\<lambda>rowIdx. take (length (or_empty (tableCells (or_empty (tableRows t) ! rowIdx))))
                             (data ! rowIdx))
                [0..<min (length (or_empty (tableRows t))) (length data)])
           headerRow = cellInserts t data headerRow"
    by (rule cellInserts_truncate [symmetric])
  have "insertTable_try w d index rows columns data headerRow =
         insertTable_try w d index rows columns
           (map (\<lambda>rowIdx. take (length (or_empty (tableCells (or_empty (tableRows t) ! rowIdx))))
                             (data ! rowIdx))
                [0..<min (length (or_empty (tableRows t))) (length data)])
           headerRow"
    using assms by (simp add: run_defs eq)
  then show ?thesis by (simp add: insertTable_def)
qed

lemma insertTable_accepted:
  assumes v: "\<And>h rs. verdicts w h d rs = None"
    and s1: "snapshots w (trace w @ [BatchUpdate d [InsertText index [0x000A]],
           BatchUpdate d [InsertTable rows columns (index + 1)]]) d = Inr doc"
    and f1: "find_table (content_or_empty doc) (index + 1) = Some (s, t)"
    and s2: "snapshots w (trace w @ [BatchUpdate d [InsertText index [0x000A]],
           BatchUpdate d [InsertTable rows columns (index + 1)], Get d]
           @ fill_calls d t data headerRow) d = Inr doc2"
    and f2: "find_table (content_or_empty doc2) (index + 1) = Some (s2, t2)"
  shows "insertTable w d index rows columns data headerRow =
          (Inr (), w\<lparr>trace := trace w @ [BatchUpdate d [InsertText index [0x000A]],
             BatchUpdate d [InsertTable rows columns (index + 1)], Get d]
             @ fill_calls d t data headerRow @ [Get d]
             @ (if formattingRequests s2 t2 columns headerRow = [] then []
                else [BatchUpdate d (formattingRequests s2 t2 columns headerRow)])\<rparr>)"
  using try_exit_format [OF v v s1 f1 _ s2 f2] v
  by (simp add: insertTable_def)

lemma upt_split: "c < n \<Longrightarrow> [0..<n] = [0..<c] @ c # [Suc c..<n]"
proof -
  assume c: "c < n"
  have "[0..<c + (n - c)] = [0..<c] @ [c..<c + (n - c)]"
    by (rule upt_add_eq_append) simp
  with c have "[0..<n] = [0..<c] @ [c..<n]" by simp
  with c show ?thesis by (simp add: upt_conv_Cons)
qed

lemma formatting_unfilled_header:
  assumes rows: "or_empty (tableRows t2) = firstRow # rest"
    and c: "colIdx < length (or_empty (tableCells firstRow))"
    and cell: "or_empty (tableCells firstRow) ! colIdx =
       TableCell (Some [StructuralElement (Some sp) (Some ep)
          (Some (Paragraph (Some [ParagraphElement (Some sp) (Some ep)
                                    (Some (TextRun (Some [0x000A])))]))) None])"
  shows "formattingRequests s2 t2 columns True =
     border_requests s2 (Suc (length rest)) (int (length (or_empty (tableCells firstRow))))
     @ concat (map (\<lambda>k. header_cell_requests s2 k (or_empty (tableCells firstRow) ! k))
                [0..<colIdx])
     @ [UpdateParagraphStyle (Range sp ep) (Alignment ''CENTER'') ''alignment'',
        UpdateTableCellStyle (BackgroundColor (RgbColor (9 / 10) (9 / 10) (9 / 10)))
          (TableRange s2 0 colIdx 1 1) ''backgroundColor'']
     @ concat (map (\<lambda>k. header_cell_requests s2 k (or_empty (tableCells firstRow) ! k))
                [Suc colIdx..<length (or_empty (tableCells firstRow))])"
proof -
  let ?cells = "or_empty (tableCells firstRow)"
  have ne: "?cells \<noteq> []" using c by auto
  have n: "num_or (map_option (\<lambda>cells. int (length cells)) (tableCells firstRow)) columns
      = int (length ?cells)"
    using ne by (cases "tableCells firstRow") simp_all
  have h: "header_requests s2 (firstRow # rest) =
      concat (map (\<lambda>k. header_cell_requests s2 k (?cells ! k)) [0..<colIdx])
      @ header_cell_requests s2 colIdx (?cells ! colIdx)
      @ concat (map (\<lambda>k. header_cell_requests s2 k (?cells ! k)) [Suc colIdx..<length ?cells])"
    by (simp add: header_requests_def upt_split [OF c])
  show ?thesis
    unfolding formattingRequests_def Let_def rows
    by (simp add: h n cell header_unfilled_cell)
qed

section \<open>The concrete documents, evaluated\<close>

lemma table_world_simps [simp]:
  "trace table_world = []" "verdicts table_world h d rs = None"
  "snapshots table_world h d = (if length h \<le> 2 then Inr empty_table_document
                            else Inr filled_table_document)"
  by (simp_all add: table_world_def)

lemma lost_table_world_simps [simp]:
  "trace lost_table_world = []" "verdicts lost_table_world h d rs = None"
  "snapshots lost_table_world h d = (if length h \<le> 2 then Inr empty_table_document
                            else Inr empty_document)"
  by (simp_all add: lost_table_world_def)

lemma fixed_world_simps [simp]:
  "trace (fixed_world doc) = []" "verdicts (fixed_world doc) h d rs = None"
  "snapshots (fixed_world doc) h d = Inr doc"
  by (simp_all add: fixed_world_def)

lemma rejecting_world_simps [simp]:
  "trace rejecting_world = []"
  "verdicts rejecting_world h d rs = Some (Error ''The caller does not have permission'')"
  by (simp_all add: rejecting_world_def)

lemma content_bodiless: "content_or_empty bodiless_document = []"
  by (simp add: bodiless_document_def content_or_empty_def)

lemma find_empty_table:
  "find_table (content_or_empty empty_table_document) 2 = Some (2, empty_table)"
  by (simp add: empty_table_document_def document_of_def content_or_empty_def section_break_def
      text_paragraph_def)

lemma find_filled_table:
  "find_table (content_or_empty filled_table_document) 2 = Some (2, filled_table)"
  by (simp add: filled_table_document_def document_of_def content_or_empty_def section_break_def
      text_paragraph_def)

lemma find_no_table: "find_table (content_or_empty empty_document) 2 = None"
  by (simp add: empty_document_def document_of_def content_or_empty_def section_break_def
      text_paragraph_def)

lemma cellInserts_abcd:
  "cellInserts empty_table abcd True =
     [CellInsert 5 (js ''A'') True, CellInsert 7 (js ''B'') True,
      CellInsert 10 (js ''C'') False, CellInsert 12 (js ''D'') False]"
  by (simp add: cellInserts_def cell_inserts_of_def empty_table_def abcd_def cell_at_def
      text_paragraph_def js_def)

lemma fill_calls_abcd:
  "fill_calls ''d'' empty_table abcd True =
     [BatchUpdate ''d'' [InsertText 12 (js ''D''), InsertText 10 (js ''C''),
                         InsertText 7 (js ''B''), InsertText 5 (js ''A'')]]"
  by (simp add: fill_calls_def cellInserts_abcd sort_descending_def insertRequests_def)

lemma content_ten_char:
  "content_or_empty ten_char_document = [section_break, text_paragraph 1 (js ''0123456789'')]"
  by (simp add: ten_char_document_def document_of_def content_or_empty_def)

lemma content_empty:
  "content_or_empty empty_document = [section_break, text_paragraph 1 []]"
  by (simp add: empty_document_def document_of_def content_or_empty_def)

lemma content_paragraph_then_table:
  "content_or_empty paragraph_then_table =
     [text_paragraph 1 (js ''abc''),
      StructuralElement (Some 5) (Some 9) None
        (Some (Table (Some [TableRow (Some [cell_at 6 []])])))]"
  by (simp add: paragraph_then_table_def document_of_def content_or_empty_def)

lemma endIndex_text_paragraph [simp]:
  "endIndex (text_paragraph s txt) = Some (s + int (length txt) + 1)"
  by (simp add: text_paragraph_def)

lemma upt_0_2: "[0..<2] = [0, Suc 0]"
  by (simp add: numeral_2_eq_2)

lemma formatting_filled:
  "formattingRequests 2 filled_table 2 True =
     [border_request 2 0 0, border_request 2 0 1, border_request 2 1 0, border_request 2 1 1,
      UpdateParagraphStyle (Range 5 7) (Alignment ''CENTER'') ''alignment'',
      UpdateTextStyle (Range 5 7) (TextStyleBold True) ''bold'',
      background_request 2 0,
      UpdateParagraphStyle (Range 8 10) (Alignment ''CENTER'') ''alignment'',
      UpdateTextStyle (Range 8 10) (TextStyleBold True) ''bold'',
      background_request 2 1]"
  by (simp add: formattingRequests_def border_requests_def header_requests_def
      header_cell_requests_def header_element_requests_def bold_requests_def filled_table_def
      cell_at_def text_paragraph_def js_def trim_def isWhiteSpace_def Let_def upt_0_2)

lemma table_world_calls:
  "calls_of table_world (snd (insertTable table_world ''d'' 1 2 2 abcd True)) =
     [BatchUpdate ''d'' [InsertText 1 [0x000A]], BatchUpdate ''d'' [InsertTable 2 2 2],
      Get ''d'',
      BatchUpdate ''d'' [InsertText 12 (js ''D''), InsertText 10 (js ''C''),
                         InsertText 7 (js ''B''), InsertText 5 (js ''A'')],
      Get ''d'',
      BatchUpdate ''d'' (formattingRequests 2 filled_table 2 True)]"
proof -
  have ne: "formattingRequests 2 filled_table 2 True \<noteq> []"
    by (simp add: formatting_filled)
  have "insertTable_try table_world ''d'' 1 2 2 abcd True =
      (Inr (), table_world\<lparr>trace := trace table_world
         @ [BatchUpdate ''d'' [InsertText 1 [0x000A]],
            BatchUpdate ''d'' [InsertTable 2 2 (1 + 1)], Get ''d'']
         @ fill_calls ''d'' empty_table abcd True
         @ [Get ''d'', BatchUpdate ''d'' (formattingRequests 2 filled_table 2 True)]\<rparr>)"
    using try_exit_format [where w = table_world and d = "''d''" and index = 1 and rows = 2
          and columns = 2 and data = abcd and headerRow = True
          and doc = empty_table_document and s = 2 and t = empty_table
          and ?doc2.0 = filled_table_document and ?s2.0 = 2 and ?t2.0 = filled_table] ne
    by (simp add: find_empty_table find_filled_table fill_calls_abcd)
  then show ?thesis
    by (simp add: snd_insertTable fill_calls_abcd calls_of_def)
qed

lemma unfilled_header_world_simps [simp]:
  "trace unfilled_header_world = []" "verdicts unfilled_header_world h d rs = None"
  "snapshots unfilled_header_world h d = (if length h \<le> 2 then Inr empty_table_document
                            else Inr partly_filled_table_document)"
  by (simp_all add: unfilled_header_world_def)

lemma find_partly_filled_table:
  "find_table (content_or_empty partly_filled_table_document) 2 = Some (2, partly_filled_table)"
  by (simp add: partly_filled_table_document_def document_of_def content_or_empty_def
      section_break_def text_paragraph_def)

lemma cellInserts_oversized:
  "cellInserts empty_table oversized True =
     [CellInsert 7 (js ''B'') True, CellInsert 10 (js ''C'') False,
      CellInsert 12 (js ''D'') False]"
  by (simp add: cellInserts_def cell_inserts_of_def empty_table_def oversized_def cell_at_def
      text_paragraph_def js_def)

lemma fill_calls_oversized:
  "fill_calls ''d'' empty_table oversized True =
     [BatchUpdate ''d'' [InsertText 12 (js ''D''), InsertText 10 (js ''C''),
                         InsertText 7 (js ''B'')]]"
  by (simp add: fill_calls_def cellInserts_oversized sort_descending_def insertRequests_def)

lemma oversized_cut:
  "map (\<lambda>rowIdx. take (length (or_empty (tableCells (or_empty (tableRows empty_table) ! rowIdx))))
                    (oversized ! rowIdx))
       [0..<min (length (or_empty (tableRows empty_table))) (length oversized)]
   = [[[], js ''B''], [js ''C'', js ''D'']]"
  by (simp add: empty_table_def oversized_def)

lemma header_cell_B:
  "header_cell_requests 2 (Suc 0) (cell_at 6 (js ''B'')) =
     [UpdateParagraphStyle (Range 7 9) (Alignment ''CENTER'') ''alignment'',
      UpdateTextStyle (Range 7 9) (TextStyleBold True) ''bold'',
      UpdateTableCellStyle (BackgroundColor (RgbColor (9 / 10) (9 / 10) (9 / 10)))
        (TableRange 2 0 (Suc 0) 1 1) ''backgroundColor'']"
  by (simp add: header_cell_requests_def header_element_requests_def bold_requests_def
      background_request_def cell_at_def text_paragraph_def js_def trim_def isWhiteSpace_def)

lemma border_requests_2_2:
  "border_requests 2 (Suc (Suc 0)) 2 =
     [border_request 2 0 0, border_request 2 0 (Suc 0),
      border_request 2 (Suc 0) 0, border_request 2 (Suc 0) (Suc 0)]"
  by (simp add: border_requests_def upt_0_2)

section \<open>The claims\<close>

text \<open>
  C1. \<open>updateDocument\<close> reads the document once and submits one batch. With \<open>E\<close> the
  \<open>endIndex\<close> of the last top-level element of that snapshot, the batch is exactly
  \<open>[DeleteContentRange(1, E - 1), InsertText(1, text)]\<close> when \<open>E > 2\<close> and exactly
  \<open>[InsertText(1, text)]\<close> when \<open>E \<le> 2\<close>; the latter is also the batch when the body
  is empty or its last element carries no \<open>endIndex\<close>. Hence every delete range that is
  submitted starts at 1 and ends strictly after 1: no empty range reaches the backend.
\<close>

theorem updateDocument_batch:
  "snapshots w (trace w) documentId = Inr doc \<Longrightarrow>
   (\<forall>E. content_or_empty doc \<noteq> [] \<and> endIndex (last (content_or_empty doc)) = Some E \<and> E > 2 \<longrightarrow>
      calls_of w (snd (updateDocument w documentId text)) =
        [Get documentId,
         BatchUpdate documentId [DeleteContentRange (Range 1 (E - 1)), InsertText 1 text]])
   \<and> (\<forall>E. content_or_empty doc \<noteq> [] \<and> endIndex (last (content_or_empty doc)) = Some E \<and> E \<le> 2 \<longrightarrow>
      calls_of w (snd (updateDocument w documentId text)) =
        [Get documentId, BatchUpdate documentId [InsertText 1 text]])
   \<and> (content_or_empty doc = [] \<or> endIndex (last (content_or_empty doc)) = None \<longrightarrow>
      calls_of w (snd (updateDocument w documentId text)) =
        [Get documentId, BatchUpdate documentId [InsertText 1 text]])
   \<and> (\<forall>r. DeleteContentRange r
            \<in> set (submitted_requests (calls_of w (snd (updateDocument w documentId text)))) \<longrightarrow>
          range_startIndex r = 1 \<and> range_startIndex r < range_endIndex r)"
  by (auto simp add: updateDocument_calls)

theorem updateDocument_batch_witness:
  "endIndex (last (content_or_empty ten_char_document)) = Some 12
   \<and> calls_of (fixed_world ten_char_document)
        (snd (updateDocument (fixed_world ten_char_document) ''d'' (js ''Bye''))) =
      [Get ''d'',
       BatchUpdate ''d'' [DeleteContentRange (Range 1 11), InsertText 1 (js ''Bye'')]]
   \<and> endIndex (last (content_or_empty empty_document)) = Some 2
   \<and> calls_of (fixed_world empty_document)
        (snd (updateDocument (fixed_world empty_document) ''d'' (js ''Hello''))) =
      [Get ''d'', BatchUpdate ''d'' [InsertText 1 (js ''Hello'')]]
   \<and> content_or_empty bodiless_document = []
   \<and> calls_of (fixed_world bodiless_document)
        (snd (updateDocument (fixed_world bodiless_document) ''d'' (js ''Hello''))) =
      [Get ''d'', BatchUpdate ''d'' [InsertText 1 (js ''Hello'')]]"
  using updateDocument_batch [of "fixed_world ten_char_document" "''d''" ten_char_document
          "js ''Bye''"]
        updateDocument_batch [of "fixed_world empty_document" "''d''" empty_document
          "js ''Hello''"]
        updateDocument_batch [of "fixed_world bodiless_document" "''d''" bodiless_document
          "js ''Hello''"]
  by (simp add: content_ten_char content_empty content_bodiless js_def)



text \<open>
  C3. The claim that phase 1 is a single batch of two operations does not hold: on the
  2 x 2 scenario the first two calls are two batches of one operation each.
\<close>

theorem insertTable_phase1_counterexample:
  "take 2 (calls_of table_world (snd (insertTable table_world ''d'' 1 2 2 abcd True))) =
     [BatchUpdate ''d'' [InsertText 1 [0x000A]], BatchUpdate ''d'' [InsertTable 2 2 2]]
   \<and> take 1 (calls_of table_world (snd (insertTable table_world ''d'' 1 2 2 abcd True))) \<noteq>
     [BatchUpdate ''d'' [InsertText 1 [0x000A], InsertTable 2 2 2]]"
proof -
  have "take 2 (calls_of table_world (snd (insertTable table_world ''d'' 1 2 2 abcd True))) =
     [BatchUpdate ''d'' [InsertText 1 [0x000A]], BatchUpdate ''d'' [InsertTable 2 2 (1 + 1)]]"
    by (rule insertTable_prefix2) simp
  then have t2: "take 2 (calls_of table_world (snd (insertTable table_world ''d'' 1 2 2 abcd True))) =
     [BatchUpdate ''d'' [InsertText 1 [0x000A]], BatchUpdate ''d'' [InsertTable 2 2 2]]"
    by simp
  have "take 1 (take 2 (calls_of table_world (snd (insertTable table_world ''d'' 1 2 2 abcd True))))
      = [BatchUpdate ''d'' [InsertText 1 [0x000A]]]"
    unfolding t2 by simp
  then have "take 1 (calls_of table_world (snd (insertTable table_world ''d'' 1 2 2 abcd True)))
      = [BatchUpdate ''d'' [InsertText 1 [0x000A]]]"
    by simp
  with t2 show ?thesis by simp
qed

text \<open>
  C3, as amended. \<open>insertTable\<close> first submits the batch \<open>[InsertText(index, newline)]\<close>
  alone. When the backend accepts it, the very next call is the batch
  \<open>[InsertTable(rows, columns) at index + 1]\<close>, with no read and no other submission
  between the two; when the backend rejects it, nothing else is submitted.
\<close>

theorem insertTable_phase1_two_batches:
  "(verdicts w (trace w) d [InsertText index [0x000A]] = None \<longrightarrow>
      take 2 (calls_of w (snd (insertTable w d index rows columns data headerRow))) =
        [BatchUpdate d [InsertText index [0x000A]],
         BatchUpdate d [InsertTable rows columns (index + 1)]])
   \<and> (verdicts w (trace w) d [InsertText index [0x000A]] \<noteq> None \<longrightarrow>
      calls_of w (snd (insertTable w d index rows columns data headerRow)) =
        [BatchUpdate d [InsertText index [0x000A]]])"
proof -
  have "calls_of w (snd (insertTable w d index rows columns data headerRow)) =
        [BatchUpdate d [InsertText index [0x000A]]]"
    if "verdicts w (trace w) d [InsertText index [0x000A]] \<noteq> None"
  proof -
    from that obtain e where "verdicts w (trace w) d [InsertText index [0x000A]] = Some e"
      by auto
    then show ?thesis by (simp add: snd_insertTable try_exit_newline)
  qed
  then show ?thesis using insertTable_prefix2 [of w d index rows columns data headerRow] by blast
qed

theorem insertTable_phase1_two_batches_witness:
  "verdicts table_world (trace table_world) ''d'' [InsertText 1 [0x000A]] = None
   \<and> take 2 (calls_of table_world (snd (insertTable table_world ''d'' 1 2 2 abcd False))) =
        [BatchUpdate ''d'' [InsertText 1 [0x000A]], BatchUpdate ''d'' [InsertTable 2 2 2]]
   \<and> verdicts rejecting_world (trace rejecting_world) ''d'' [InsertText 1 [0x000A]] \<noteq> None
   \<and> calls_of rejecting_world (snd (insertTable rejecting_world ''d'' 1 2 2 abcd False)) =
        [BatchUpdate ''d'' [InsertText 1 [0x000A]]]"
  using insertTable_phase1_two_batches [of table_world "''d''" 1 2 2 abcd False]
        insertTable_phase1_two_batches [of rejecting_world "''d''" 1 2 2 abcd False]
  by simp

text \<open>
  C4. The earlier \<open>updateDocument\<close>, which measures the document by its first element,
  and the present one, which measures it by its last element, behave identically on
  every document whose body has exactly one element. There is a document with more than
  one top-level element (a paragraph followed by a table) on which both submit a delete
  range starting at 1, the first-element variant's ending strictly before the
  last-element variant's, which ends one before the end of the document: the content
  between the two ends is not deleted by the first-element variant.
\<close>

theorem replace_variants:
  "(\<forall>w documentId text doc el.
      snapshots w (trace w) documentId = Inr doc \<and> content_or_empty doc = [el] \<longrightarrow>
      updateDocument_first w documentId text = updateDocument w documentId text)
   \<and> (\<exists>w documentId text doc a b.
        snapshots w (trace w) documentId = Inr doc \<and> length (content_or_empty doc) > 1
      \<and> calls_of w (snd (updateDocument_first w documentId text)) =
          [Get documentId,
           BatchUpdate documentId [DeleteContentRange (Range 1 a), InsertText 1 text]]
      \<and> calls_of w (snd (updateDocument w documentId text)) =
          [Get documentId,
           BatchUpdate documentId [DeleteContentRange (Range 1 b), InsertText 1 text]]
      \<and> a < b \<and> endIndex (last (content_or_empty doc)) = Some (b + 1))"
proof (rule conjI)
  show "\<forall>w documentId text doc el.
      snapshots w (trace w) documentId = Inr doc \<and> content_or_empty doc = [el] \<longrightarrow>
      updateDocument_first w documentId text = updateDocument w documentId text"
    by (simp add: updateDocument_def updateDocument_first_def documents_get_def Let_def)
next
  let ?w = "fixed_world paragraph_then_table"
  have "snapshots ?w (trace ?w) ''d'' = Inr paragraph_then_table"
    and "length (content_or_empty paragraph_then_table) > 1"
    and "calls_of ?w (snd (updateDocument_first ?w ''d'' [])) =
          [Get ''d'', BatchUpdate ''d'' [DeleteContentRange (Range 1 4), InsertText 1 []]]"
    and "calls_of ?w (snd (updateDocument ?w ''d'' [])) =
          [Get ''d'', BatchUpdate ''d'' [DeleteContentRange (Range 1 8), InsertText 1 []]]"
    and "(4::int) < 8" and "endIndex (last (content_or_empty paragraph_then_table)) = Some (8 + 1)"
    by (simp_all add: content_paragraph_then_table updateDocument_def updateDocument_first_def
         documents_get_def documents_batchUpdate_def calls_of_def Let_def js_def)
  then show "\<exists>w documentId text doc a b.
        snapshots w (trace w) documentId = Inr doc \<and> length (content_or_empty doc) > 1
      \<and> calls_of w (snd (updateDocument_first w documentId text)) =
          [Get documentId,
           BatchUpdate documentId [DeleteContentRange (Range 1 a), InsertText 1 text]]
      \<and> calls_of w (snd (updateDocument w documentId text)) =
          [Get documentId,
           BatchUpdate documentId [DeleteContentRange (Range 1 b), InsertText 1 text]]
      \<and> a < b \<and> endIndex (last (content_or_empty doc)) = Some (b + 1)"
    by blast
qed

theorem replace_variants_witness:
  "content_or_empty one_paragraph_document = [text_paragraph 1 (js ''0123456789'')]
   \<and> updateDocument_first (fixed_world one_paragraph_document) ''d'' (js ''Bye'')
      = updateDocument (fixed_world one_paragraph_document) ''d'' (js ''Bye'')
   \<and> calls_of (fixed_world one_paragraph_document)
        (snd (updateDocument (fixed_world one_paragraph_document) ''d'' (js ''Bye''))) =
      [Get ''d'',
       BatchUpdate ''d'' [DeleteContentRange (Range 1 11), InsertText 1 (js ''Bye'')]]"
proof -
  have c: "content_or_empty one_paragraph_document = [text_paragraph 1 (js ''0123456789'')]"
    by (simp add: one_paragraph_document_def document_of_def content_or_empty_def)
  have s: "snapshots (fixed_world one_paragraph_document)
             (trace (fixed_world one_paragraph_document)) ''d'' = Inr one_paragraph_document"
    by simp
  from replace_variants s c
  have "updateDocument_first (fixed_world one_paragraph_document) ''d'' (js ''Bye'')
      = updateDocument (fixed_world one_paragraph_document) ''d'' (js ''Bye'')"
    by blast
  moreover have "calls_of (fixed_world one_paragraph_document)
        (snd (updateDocument (fixed_world one_paragraph_document) ''d'' (js ''Bye''))) =
      [Get ''d'',
       BatchUpdate ''d'' [DeleteContentRange (Range 1 11), InsertText 1 (js ''Bye'')]]"
    by (simp add: updateDocument_calls c js_def)
  ultimately show ?thesis using c by simp
qed

text \<open>
  C5. Every \<open>UpdateTextStyle\<close>, every \<open>UpdateParagraphStyle\<close> and every
  background-colour \<open>UpdateTableCellStyle\<close> request that \<open>insertTable\<close> submits is
  submitted only when \<open>headerRow\<close> is set, and belongs to a cell of row 0 of the table
  found in a snapshot: the background request addresses row 0 with RGB 0.9/0.9/0.9, the
  centre alignment covers a paragraph of a row-0 cell, and the bold style covers a text
  run of a paragraph of a row-0 cell whose trimmed content is not empty.
\<close>

theorem header_styling_only_row0:
  assumes "r \<in> set (submitted_requests
                     (calls_of w (snd (insertTable w d index rows columns data headerRow))))"
    and "(\<exists>rg st f. r = UpdateTextStyle rg st f) \<or> (\<exists>rg st f. r = UpdateParagraphStyle rg st f)
         \<or> (\<exists>c tr f. r = UpdateTableCellStyle (BackgroundColor c) tr f)"
  shows "headerRow \<and>
    (\<exists>h doc tsi ut firstRow rest colIdx.
        snapshots w h d = Inr doc
      \<and> find_table (content_or_empty doc) (index + 1) = Some (tsi, ut)
      \<and> or_empty (tableRows ut) = firstRow # rest
      \<and> colIdx < length (or_empty (tableCells firstRow))
      \<and> (r = UpdateTableCellStyle (BackgroundColor (RgbColor (9 / 10) (9 / 10) (9 / 10)))
                (TableRange tsi 0 colIdx 1 1) ''backgroundColor''
         \<or> (\<exists>cellElement p s e.
               cellElement \<in> set (or_empty (cell_content (or_empty (tableCells firstRow) ! colIdx)))
               \<and> el_paragraph cellElement = Some p
               \<and> (startIndex cellElement = Some s \<and> endIndex cellElement = Some e
                    \<and> r = UpdateParagraphStyle (Range s e) (Alignment ''CENTER'') ''alignment''
                  \<or> (\<exists>elem run. elem \<in> set (or_empty (elements p)) \<and> textRun elem = Some run
                        \<and> pe_startIndex elem = Some s \<and> pe_endIndex elem = Some e
                        \<and> length (trim (or_empty (run_content run))) > 0
                        \<and> r = UpdateTextStyle (Range s e) (TextStyleBold True) ''bold'')))))"
proof -
  from insertTable_requests [OF assms(1)] assms(2)
  obtain h doc tsi ut where snap: "snapshots w h d = Inr doc"
    and found: "find_table (content_or_empty doc) (index + 1) = Some (tsi, ut)"
    and r: "r \<in> set (formattingRequests tsi ut columns headerRow)"
    by (auto dest: insertRequestsD)
  from formattingRequestsD [OF r] assms(2)
  have hdr: "headerRow" and rh: "r \<in> set (header_requests tsi (or_empty (tableRows ut)))"
    by (auto simp: border_request_def)
  from header_phase_row0 [OF rh] snap found hdr show ?thesis by blast
qed

theorem header_styling_only_row0_witness:
  "UpdateTextStyle (Range 5 7) (TextStyleBold True) ''bold''
     \<in> set (submitted_requests
              (calls_of table_world (snd (insertTable table_world ''d'' 1 2 2 abcd True))))
   \<and> (True \<and>
    (\<exists>h doc tsi ut firstRow rest colIdx.
        snapshots table_world h ''d'' = Inr doc
      \<and> find_table (content_or_empty doc) (1 + 1) = Some (tsi, ut)
      \<and> or_empty (tableRows ut) = firstRow # rest
      \<and> colIdx < length (or_empty (tableCells firstRow))
      \<and> (UpdateTextStyle (Range 5 7) (TextStyleBold True) ''bold''
            = UpdateTableCellStyle (BackgroundColor (RgbColor (9 / 10) (9 / 10) (9 / 10)))
                (TableRange tsi 0 colIdx 1 1) ''backgroundColor''
         \<or> (\<exists>cellElement p s e.
               cellElement \<in> set (or_empty (cell_content (or_empty (tableCells firstRow) ! colIdx)))
               \<and> el_paragraph cellElement = Some p
               \<and> (startIndex cellElement = Some s \<and> endIndex cellElement = Some e
                    \<and> UpdateTextStyle (Range 5 7) (TextStyleBold True) ''bold''
                        = UpdateParagraphStyle (Range s e) (Alignment ''CENTER'') ''alignment''
                  \<or> (\<exists>elem run. elem \<in> set (or_empty (elements p)) \<and> textRun elem = Some run
                        \<and> pe_startIndex elem = Some s \<and> pe_endIndex elem = Some e
                        \<and> length (trim (or_empty (run_content run))) > 0
                        \<and> UpdateTextStyle (Range 5 7) (TextStyleBold True) ''bold''
                            = UpdateTextStyle (Range s e) (TextStyleBold True) ''bold''))))))"
proof -
  have h1: "UpdateTextStyle (Range 5 7) (TextStyleBold True) ''bold''
     \<in> set (submitted_requests
              (calls_of table_world (snd (insertTable table_world ''d'' 1 2 2 abcd True))))"
    by (simp add: table_world_calls formatting_filled)
  have h2: "(\<exists>rg st f. UpdateTextStyle (Range 5 7) (TextStyleBold True) ''bold''
                 = UpdateTextStyle rg st f)
     \<or> (\<exists>rg st f. UpdateTextStyle (Range 5 7) (TextStyleBold True) ''bold''
                 = UpdateParagraphStyle rg st f)
     \<or> (\<exists>c tr f. UpdateTextStyle (Range 5 7) (TextStyleBold True) ''bold''
                 = UpdateTableCellStyle (BackgroundColor c) tr f)"
    by simp
  from h1 header_styling_only_row0 [OF h1 h2] show ?thesis by (rule conjI)
qed

text \<open>
  C6. Every \<open>UpdateTableCellStyle\<close> request that \<open>insertTable\<close> submits addresses its
  cell by the start index of the table found in a snapshot, a row index below the number
  of rows and a column index, with \<open>rowSpan = columnSpan = 1\<close>; a \<open>table_range\<close>
  carries no character range. The cell addresses depend on the table's start index and
  on its shape only: two snapshots of the table that differ in the character indices and
  the text inside the cells, but not in the number of cells per row, yield the same
  cell-style requests.
\<close>

theorem cell_style_addressing:
  "(UpdateTableCellStyle style tr fm
      \<in> set (submitted_requests
               (calls_of w (snd (insertTable w d index rows columns data headerRow)))) \<longrightarrow>
      rowSpan tr = 1 \<and> columnSpan tr = 1
      \<and> (\<exists>h doc ut. snapshots w h d = Inr doc
            \<and> find_table (content_or_empty doc) (index + 1) = Some (tableStartLocation tr, ut)
            \<and> rowIndex tr < length (or_empty (tableRows ut))
            \<and> (columnIndex tr < length (or_empty (tableCells (or_empty (tableRows ut) ! 0)))
               \<or> (or_empty (tableCells (or_empty (tableRows ut) ! 0)) = []
                   \<and> columnIndex tr < nat columns))))
   \<and> (map (\<lambda>row. length (or_empty (tableCells row))) (or_empty (tableRows ut1))
        = map (\<lambda>row. length (or_empty (tableCells row))) (or_empty (tableRows ut2)) \<longrightarrow>
       filter is_cell_style (formattingRequests tsi ut1 columns headerRow)
        = filter is_cell_style (formattingRequests tsi ut2 columns headerRow))"
proof -
  have stable: "filter is_cell_style (formattingRequests tsi ut1 columns headerRow)
        = filter is_cell_style (formattingRequests tsi ut2 columns headerRow)"
    if "map (\<lambda>row. length (or_empty (tableCells row))) (or_empty (tableRows ut1))
        = map (\<lambda>row. length (or_empty (tableCells row))) (or_empty (tableRows ut2))"
    using that by (simp add: filter_formattingRequests)
  have addressed: "rowSpan tr = 1 \<and> columnSpan tr = 1
      \<and> (\<exists>h doc ut. snapshots w h d = Inr doc
            \<and> find_table (content_or_empty doc) (index + 1) = Some (tableStartLocation tr, ut)
            \<and> rowIndex tr < length (or_empty (tableRows ut))
            \<and> (columnIndex tr < length (or_empty (tableCells (or_empty (tableRows ut) ! 0)))
               \<or> (or_empty (tableCells (or_empty (tableRows ut) ! 0)) = []
                   \<and> columnIndex tr < nat columns)))"
    if a: "UpdateTableCellStyle style tr fm \<in> set (submitted_requests
               (calls_of w (snd (insertTable w d index rows columns data headerRow))))"
  proof -
    let ?r = "UpdateTableCellStyle style tr fm"
    from insertTable_requests [OF a]
    obtain h doc tsi ut where snap: "snapshots w h d = Inr doc"
      and found: "find_table (content_or_empty doc) (index + 1) = Some (tsi, ut)"
      and r: "?r \<in> set (formattingRequests tsi ut columns headerRow)"
      by (auto dest: insertRequestsD)
    from formattingRequestsD [OF r] consider
      (border) rowIdx colIdx where "?r = border_request tsi rowIdx colIdx"
    | (header) "?r \<in> set (header_requests tsi (or_empty (tableRows ut)))"
      by blast
    then have "rowSpan tr = 1 \<and> columnSpan tr = 1 \<and> tableStartLocation tr = tsi
        \<and> rowIndex tr < length (or_empty (tableRows ut))
        \<and> (columnIndex tr < length (or_empty (tableCells (or_empty (tableRows ut) ! 0)))
                 \<or> (or_empty (tableCells (or_empty (tableRows ut) ! 0)) = []
                     \<and> columnIndex tr < nat columns))"
    proof cases
      case border
      with r have "border_request tsi rowIdx colIdx
          \<in> set (formattingRequests tsi ut columns headerRow)"
        by simp
      from formatting_borderD [OF this] border show ?thesis
        by (auto simp: border_request_def)
    next
      case header
      from header_phase_row0 [OF this] show ?thesis by auto
    qed
    with snap found show ?thesis by blast
  qed
  from stable addressed show ?thesis by blast
qed

theorem cell_style_addressing_witness:
  "UpdateTableCellStyle (BackgroundColor (RgbColor (9 / 10) (9 / 10) (9 / 10)))
       (TableRange 2 0 1 1 1) ''backgroundColor''
     \<in> set (submitted_requests
              (calls_of table_world (snd (insertTable table_world ''d'' 1 2 2 abcd True))))
   \<and> (rowSpan (TableRange 2 0 1 1 1) = 1 \<and> columnSpan (TableRange 2 0 1 1 1) = 1
      \<and> (\<exists>h doc ut. snapshots table_world h ''d'' = Inr doc
            \<and> find_table (content_or_empty doc) (1 + 1)
                = Some (tableStartLocation (TableRange 2 0 1 1 1), ut)
            \<and> rowIndex (TableRange 2 0 1 1 1) < length (or_empty (tableRows ut))
            \<and> (columnIndex (TableRange 2 0 1 1 1)
                  < length (or_empty (tableCells (or_empty (tableRows ut) ! 0)))
               \<or> (or_empty (tableCells (or_empty (tableRows ut) ! 0)) = []
                   \<and> columnIndex (TableRange 2 0 1 1 1) < nat 2))))
   \<and> map (\<lambda>row. length (or_empty (tableCells row))) (or_empty (tableRows empty_table))
        = map (\<lambda>row. length (or_empty (tableCells row))) (or_empty (tableRows filled_table))
   \<and> filter is_cell_style (formattingRequests 2 empty_table 2 True)
        = filter is_cell_style (formattingRequests 2 filled_table 2 True)"
proof -
  note inst = cell_style_addressing [of "BackgroundColor (RgbColor (9 / 10) (9 / 10) (9 / 10))"
      "TableRange 2 0 1 1 1" "''backgroundColor''" table_world "''d''" 1 2 2 abcd True
      empty_table filled_table 2]
  have h1: "UpdateTableCellStyle (BackgroundColor (RgbColor (9 / 10) (9 / 10) (9 / 10)))
       (TableRange 2 0 1 1 1) ''backgroundColor''
     \<in> set (submitted_requests
              (calls_of table_world (snd (insertTable table_world ''d'' 1 2 2 abcd True))))"
    by (simp add: table_world_calls formatting_filled background_request_def)
  have h3: "map (\<lambda>row. length (or_empty (tableCells row))) (or_empty (tableRows empty_table))
        = map (\<lambda>row. length (or_empty (tableCells row))) (or_empty (tableRows filled_table))"
    by (simp add: empty_table_def filled_table_def)
  from inst h1 have c1: "rowSpan (TableRange 2 0 1 1 1) = 1 \<and> columnSpan (TableRange 2 0 1 1 1) = 1
      \<and> (\<exists>h doc ut. snapshots table_world h ''d'' = Inr doc
            \<and> find_table (content_or_empty doc) (1 + 1)
                = Some (tableStartLocation (TableRange 2 0 1 1 1), ut)
            \<and> rowIndex (TableRange 2 0 1 1 1) < length (or_empty (tableRows ut))
            \<and> (columnIndex (TableRange 2 0 1 1 1)
                  < length (or_empty (tableCells (or_empty (tableRows ut) ! 0)))
               \<or> (or_empty (tableCells (or_empty (tableRows ut) ! 0)) = []
                   \<and> columnIndex (TableRange 2 0 1 1 1) < nat 2)))"
    by (rule conjunct1 [THEN mp])
  from inst h3 have c2: "filter is_cell_style (formattingRequests 2 empty_table 2 True)
        = filter is_cell_style (formattingRequests 2 filled_table 2 True)"
    by (rule conjunct2 [THEN mp])
  from h1 conjI [OF c1 conjI [OF h3 c2]] show ?thesis by (rule conjI)
qed

text \<open>
  C7. The claim that a failed table lookup always ends in an error does not hold for the
  lookup of the formatting phase: when the second snapshot holds no table, \<open>insertTable\<close>
  returns success.
\<close>

theorem table_lookup_counterexample:
  "find_table (content_or_empty empty_document) (1 + 1) = None
   \<and> snapshots lost_table_world
        ([BatchUpdate ''d'' [InsertText 1 [0x000A]], BatchUpdate ''d'' [InsertTable 2 2 2],
          Get ''d''] @ fill_calls ''d'' empty_table abcd True) ''d'' = Inr empty_document
   \<and> fst (insertTable lost_table_world ''d'' 1 2 2 abcd True) = Inr ()"
proof -
  have "insertTable_try lost_table_world ''d'' 1 2 2 abcd True =
      (Inr (), lost_table_world\<lparr>trace := trace lost_table_world
         @ [BatchUpdate ''d'' [InsertText 1 [0x000A]],
            BatchUpdate ''d'' [InsertTable 2 2 (1 + 1)], Get ''d'']
         @ fill_calls ''d'' empty_table abcd True @ [Get ''d'']\<rparr>)"
    by (rule try_exit_lookup2 [where doc = empty_table_document and s = 2 and t = empty_table
          and ?doc2.0 = empty_document])
       (simp_all add: find_empty_table find_no_table fill_calls_abcd)
  then show ?thesis
    by (simp add: fst_insertTable find_no_table fill_calls_abcd)
qed

text \<open>
  C7, as amended. When the snapshot read after phase 1 holds no table at or after
  \<open>index + 1\<close>, \<open>insertTable\<close> fails: it rethrows, under the prefix "Failed to insert
  table", the error "Failed to find the inserted table in document", and makes no further
  call. When the table is found there but the snapshot read for the formatting phase
  holds none, \<open>insertTable\<close> returns success and submits no formatting batch.
\<close>

theorem table_lookup_failures:
  "(verdicts w (trace w) d [InsertText index [0x000A]] = None
    \<and> verdicts w (trace w @ [BatchUpdate d [InsertText index [0x000A]]]) d
           [InsertTable rows columns (index + 1)] = None
    \<and> snapshots w (trace w @ [BatchUpdate d [InsertText index [0x000A]],
           BatchUpdate d [InsertTable rows columns (index + 1)]]) d = Inr doc
    \<and> find_table (content_or_empty doc) (index + 1) = None
    \<longrightarrow> insertTable w d index rows columns data headerRow =
          (Inl (Wrapped ''Failed to insert table''
                 (Error ''Failed to find the inserted table in document'')),
           w\<lparr>trace := trace w @ [BatchUpdate d [InsertText index [0x000A]],
             BatchUpdate d [InsertTable rows columns (index + 1)], Get d]\<rparr>))
   \<and> (verdicts w (trace w) d [InsertText index [0x000A]] = None
    \<and> verdicts w (trace w @ [BatchUpdate d [InsertText index [0x000A]]]) d
           [InsertTable rows columns (index + 1)] = None
    \<and> snapshots w (trace w @ [BatchUpdate d [InsertText index [0x000A]],
           BatchUpdate d [InsertTable rows columns (index + 1)]]) d = Inr doc
    \<and> find_table (content_or_empty doc) (index + 1) = Some (s, t)
    \<and> (cellInserts t data headerRow = [] \<or>
         verdicts w (trace w @ [BatchUpdate d [InsertText index [0x000A]],
           BatchUpdate d [InsertTable rows columns (index + 1)], Get d]) d
           (insertRequests (sort_descending (cellInserts t data headerRow))) = None)
    \<and> snapshots w (trace w @ [BatchUpdate d [InsertText index [0x000A]],
           BatchUpdate d [InsertTable rows columns (index + 1)], Get d]
           @ fill_calls d t data headerRow) d = Inr doc2
    \<and> find_table (content_or_empty doc2) (index + 1) = None
    \<longrightarrow> insertTable w d index rows columns data headerRow =
          (Inr (), w\<lparr>trace := trace w @ [BatchUpdate d [InsertText index [0x000A]],
             BatchUpdate d [InsertTable rows columns (index + 1)], Get d]
             @ fill_calls d t data headerRow @ [Get d]\<rparr>))"
  by (auto simp add: insertTable_def try_exit_lookup try_exit_lookup2)

theorem table_lookup_failures_witness:
  "find_table (content_or_empty empty_document) (1 + 1) = None
   \<and> fst (insertTable (fixed_world empty_document) ''d'' 1 2 2 abcd True) =
       Inl (Wrapped ''Failed to insert table''
              (Error ''Failed to find the inserted table in document''))
   \<and> calls_of (fixed_world empty_document)
        (snd (insertTable (fixed_world empty_document) ''d'' 1 2 2 abcd True)) =
       [BatchUpdate ''d'' [InsertText 1 [0x000A]], BatchUpdate ''d'' [InsertTable 2 2 2],
        Get ''d'']
   \<and> find_table (content_or_empty empty_table_document) (1 + 1) = Some (2, empty_table)
   \<and> calls_of lost_table_world (snd (insertTable lost_table_world ''d'' 1 2 2 abcd True)) =
       [BatchUpdate ''d'' [InsertText 1 [0x000A]], BatchUpdate ''d'' [InsertTable 2 2 2],
        Get ''d'',
        BatchUpdate ''d'' [InsertText 12 (js ''D''), InsertText 10 (js ''C''),
                           InsertText 7 (js ''B''), InsertText 5 (js ''A'')],
        Get ''d'']"
  using table_lookup_failures [of "fixed_world empty_document" "''d''" 1 2 2 empty_document
          abcd True 2 empty_table empty_document]
        table_lookup_failures [of lost_table_world "''d''" 1 2 2 empty_table_document
          abcd True 2 empty_table empty_document]
  by (simp add: find_no_table find_empty_table fill_calls_abcd calls_of_def)

text \<open>
  C8. \<open>insertLink\<close> makes exactly one call: the batch of \<open>InsertText(index, text)\<close>
  followed by \<open>UpdateTextStyle\<close> with the link over \<open>[index, index + text.length)\<close>.
  The range is computed from the length of the input text; the document is never
  read.
\<close>

theorem insertLink_batch:
  "calls_of w (snd (insertLink w documentId index text url)) =
     [BatchUpdate documentId
        [InsertText index text,
         UpdateTextStyle (Range index (index + int (length text))) (TextStyleLink url) ''link'']]"
  by (simp add: insertLink_def documents_batchUpdate_def calls_of_def Let_def split: option.splits)

theorem insertLink_batch_witness:
  "calls_of (fixed_world empty_document)
     (snd (insertLink (fixed_world empty_document) ''d'' 5 (js ''click here'')
             (js ''https://example.com''))) =
     [BatchUpdate ''d''
        [InsertText 5 (js ''click here''),
         UpdateTextStyle (Range 5 15) (TextStyleLink (js ''https://example.com'')) ''link'']]"
  using insertLink_batch [of "fixed_world empty_document" "''d''" 5 "js ''click here''"
          "js ''https://example.com''"]
  by (simp add: js_def)

text \<open>
  C9. \<open>appendText\<close> reads the document once and submits one batch of one \<open>InsertText\<close>.
  With \<open>E\<close> the (non-zero) \<open>endIndex\<close> of the last top-level element of that snapshot,
  the text is inserted at \<open>E - 1\<close>. When the body is empty or its last element carries
  no \<open>endIndex\<close> (or 0), the text is inserted at 1.
\<close>

theorem appendText_batch:
  "snapshots w (trace w) documentId = Inr doc \<Longrightarrow>
   (\<forall>E. content_or_empty doc \<noteq> [] \<and> endIndex (last (content_or_empty doc)) = Some E \<and> E \<noteq> 0 \<longrightarrow>
      calls_of w (snd (appendText w documentId text)) =
        [Get documentId, BatchUpdate documentId [InsertText (E - 1) text]])
   \<and> (content_or_empty doc = [] \<or> endIndex (last (content_or_empty doc)) = None
        \<or> endIndex (last (content_or_empty doc)) = Some 0 \<longrightarrow>
      calls_of w (snd (appendText w documentId text)) =
        [Get documentId, BatchUpdate documentId [InsertText 1 text]])"
  by (auto simp add: appendText_calls)

theorem appendText_batch_witness:
  "endIndex (last (content_or_empty ten_char_document)) = Some 12
   \<and> calls_of (fixed_world ten_char_document)
        (snd (appendText (fixed_world ten_char_document) ''d'' (js ''Bye''))) =
      [Get ''d'', BatchUpdate ''d'' [InsertText 11 (js ''Bye'')]]
   \<and> content_or_empty bodiless_document = []
   \<and> calls_of (fixed_world bodiless_document)
        (snd (appendText (fixed_world bodiless_document) ''d'' (js ''Bye''))) =
      [Get ''d'', BatchUpdate ''d'' [InsertText 1 (js ''Bye'')]]"
  using appendText_batch [of "fixed_world ten_char_document" "''d''" ten_char_document
          "js ''Bye''"]
        appendText_batch [of "fixed_world bodiless_document" "''d''" bodiless_document
          "js ''Bye''"]
  by (simp add: content_ten_char content_bodiless js_def)

text \<open>
  C10. Over the whole run of \<open>insertTable\<close>: every \<open>InsertText\<close> that is submitted is
  the newline of phase 1 or stems from a non-empty entry of the caller's data inside the
  dimensions of the table found in a snapshot, so data rows beyond the table's rows,
  entries beyond a row's cells and empty strings yield no operation. Once the table is
  found, the run on the data equals the run on the data cut to the table's rows and to
  each row's cells. When the backend accepts every batch and both snapshots hold the
  table, \<open>insertTable\<close> returns success, whatever the data, after exactly these calls:
  the two batches of phase 1, a read, the fill batch (when there is something to insert),
  a read, and the formatting batch. With \<open>headerRow\<close> set, the part of that formatting
  batch that belongs to a header cell which still holds only its newline is exactly the
  centre alignment of its paragraph followed by the grey background: no bold style.
\<close>

theorem cell_fill_truncates_silently:
  "(InsertText i txt \<in> set (submitted_requests
        (calls_of w (snd (insertTable w d index rows columns data headerRow)))) \<longrightarrow>
      (i = index \<and> txt = [0x000A])
      \<or> (\<exists>h doc s t rowIdx colIdx. snapshots w h d = Inr doc
            \<and> find_table (content_or_empty doc) (index + 1) = Some (s, t)
            \<and> rowIdx < length (or_empty (tableRows t)) \<and> rowIdx < length data
            \<and> colIdx < length (or_empty (tableCells (or_empty (tableRows t) ! rowIdx)))
            \<and> colIdx < length (data ! rowIdx)
            \<and> data ! rowIdx ! colIdx \<noteq> [] \<and> txt = data ! rowIdx ! colIdx
            \<and> first_paragraph_start
                 (or_empty (cell_content
                    (or_empty (tableCells (or_empty (tableRows t) ! rowIdx)) ! colIdx)))
                = Some i))
   \<and> (verdicts w (trace w) d [InsertText index [0x000A]] = None
      \<and> verdicts w (trace w @ [BatchUpdate d [InsertText index [0x000A]]]) d
           [InsertTable rows columns (index + 1)] = None
      \<and> snapshots w (trace w @ [BatchUpdate d [InsertText index [0x000A]],
           BatchUpdate d [InsertTable rows columns (index + 1)]]) d = Inr doc
      \<and> find_table (content_or_empty doc) (index + 1) = Some (s, t)
      \<longrightarrow> insertTable w d index rows columns data headerRow =
          insertTable w d index rows columns
            (map (\<lambda>rowIdx. take (length (or_empty (tableCells (or_empty (tableRows t) ! rowIdx))))
                              (data ! rowIdx))
                 [0..<min (length (or_empty (tableRows t))) (length data)])
            headerRow)
   \<and> ((\<forall>h rs. verdicts w h d rs = None)
      \<and> snapshots w (trace w @ [BatchUpdate d [InsertText index [0x000A]],
           BatchUpdate d [InsertTable rows columns (index + 1)]]) d = Inr doc
      \<and> find_table (content_or_empty doc) (index + 1) = Some (s, t)
      \<and> snapshots w (trace w @ [BatchUpdate d [InsertText index [0x000A]],
           BatchUpdate d [InsertTable rows columns (index + 1)], Get d]
           @ fill_calls d t data headerRow) d = Inr doc2
      \<and> find_table (content_or_empty doc2) (index + 1) = Some (s2, t2)
      \<longrightarrow> insertTable w d index rows columns data headerRow =
          (Inr (), w\<lparr>trace := trace w @ [BatchUpdate d [InsertText index [0x000A]],
             BatchUpdate d [InsertTable rows columns (index + 1)], Get d]
             @ fill_calls d t data headerRow @ [Get d]
             @ (if formattingRequests s2 t2 columns headerRow = [] then []
                else [BatchUpdate d (formattingRequests s2 t2 columns headerRow)])\<rparr>))
   \<and> ((\<forall>h rs. verdicts w h d rs = None)
      \<and> snapshots w (trace w @ [BatchUpdate d [InsertText index [0x000A]],
           BatchUpdate d [InsertTable rows columns (index + 1)]]) d = Inr doc
      \<and> find_table (content_or_empty doc) (index + 1) = Some (s, t)
      \<and> snapshots w (trace w @ [BatchUpdate d [InsertText index [0x000A]],
           BatchUpdate d [InsertTable rows columns (index + 1)], Get d]
           @ fill_calls d t data headerRow) d = Inr doc2
      \<and> find_table (content_or_empty doc2) (index + 1) = Some (s2, t2)
      \<and> headerRow
      \<and> or_empty (tableRows t2) = firstRow # rest
      \<and> colIdx < length (or_empty (tableCells firstRow))
      \<and> or_empty (tableCells firstRow) ! colIdx =
           TableCell (Some [StructuralElement (Some sp) (Some ep)
             (Some (Paragraph (Some [ParagraphElement (Some sp) (Some ep)
                                       (Some (TextRun (Some [0x000A])))]))) None])
      \<longrightarrow> calls_of w (snd (insertTable w d index rows columns data headerRow)) =
          [BatchUpdate d [InsertText index [0x000A]],
           BatchUpdate d [InsertTable rows columns (index + 1)], Get d]
          @ fill_calls d t data headerRow
          @ [Get d,
             BatchUpdate d
               (border_requests s2 (Suc (length rest))
                  (int (length (or_empty (tableCells firstRow))))
                @ concat (map (\<lambda>k. header_cell_requests s2 k (or_empty (tableCells firstRow) ! k))
                           [0..<colIdx])
                @ [UpdateParagraphStyle (Range sp ep) (Alignment ''CENTER'') ''alignment'',
                   UpdateTableCellStyle
                     (BackgroundColor (RgbColor (9 / 10) (9 / 10) (9 / 10)))
                     (TableRange s2 0 colIdx 1 1) ''backgroundColor'']
                @ concat (map (\<lambda>k. header_cell_requests s2 k (or_empty (tableCells firstRow) ! k))
                           [Suc colIdx..<length (or_empty (tableCells firstRow))]))])"
proof -
  have run: "insertTable w d index rows columns data headerRow =
          (Inr (), w\<lparr>trace := trace w @ [BatchUpdate d [InsertText index [0x000A]],
             BatchUpdate d [InsertTable rows columns (index + 1)], Get d]
             @ fill_calls d t data headerRow @ [Get d]
             @ (if formattingRequests s2 t2 columns headerRow = [] then []
                else [BatchUpdate d (formattingRequests s2 t2 columns headerRow)])\<rparr>)"
    if "\<forall>h rs. verdicts w h d rs = None"
      and "snapshots w (trace w @ [BatchUpdate d [InsertText index [0x000A]],
           BatchUpdate d [InsertTable rows columns (index + 1)]]) d = Inr doc"
      and "find_table (content_or_empty doc) (index + 1) = Some (s, t)"
      and "snapshots w (trace w @ [BatchUpdate d [InsertText index [0x000A]],
           BatchUpdate d [InsertTable rows columns (index + 1)], Get d]
           @ fill_calls d t data headerRow) d = Inr doc2"
      and "find_table (content_or_empty doc2) (index + 1) = Some (s2, t2)"
    using that by (intro insertTable_accepted) simp_all
  have header: "calls_of w (snd (insertTable w d index rows columns data headerRow)) =
          [BatchUpdate d [InsertText index [0x000A]],
           BatchUpdate d [InsertTable rows columns (index + 1)], Get d]
          @ fill_calls d t data headerRow
          @ [Get d,
             BatchUpdate d
               (border_requests s2 (Suc (length rest))
                  (int (length (or_empty (tableCells firstRow))))
                @ concat (map (\<lambda>k. header_cell_requests s2 k (or_empty (tableCells firstRow) ! k))
                           [0..<colIdx])
                @ [UpdateParagraphStyle (Range sp ep) (Alignment ''CENTER'') ''alignment'',
                   UpdateTableCellStyle
                     (BackgroundColor (RgbColor (9 / 10) (9 / 10) (9 / 10)))
                     (TableRange s2 0 colIdx 1 1) ''backgroundColor'']
                @ concat (map (\<lambda>k. header_cell_requests s2 k (or_empty (tableCells firstRow) ! k))
                           [Suc colIdx..<length (or_empty (tableCells firstRow))]))]"
    if a: "\<forall>h rs. verdicts w h d rs = None"
      "snapshots w (trace w @ [BatchUpdate d [InsertText index [0x000A]],
           BatchUpdate d [InsertTable rows columns (index + 1)]]) d = Inr doc"
      "find_table (content_or_empty doc) (index + 1) = Some (s, t)"
      "snapshots w (trace w @ [BatchUpdate d [InsertText index [0x000A]],
           BatchUpdate d [InsertTable rows columns (index + 1)], Get d]
           @ fill_calls d t data headerRow) d = Inr doc2"
      "find_table (content_or_empty doc2) (index + 1) = Some (s2, t2)"
      and hr: "headerRow"
      and b: "or_empty (tableRows t2) = firstRow # rest"
      "colIdx < length (or_empty (tableCells firstRow))"
      "or_empty (tableCells firstRow) ! colIdx =
           TableCell (Some [StructuralElement (Some sp) (Some ep)
             (Some (Paragraph (Some [ParagraphElement (Some sp) (Some ep)
                                       (Some (TextRun (Some [0x000A])))]))) None])"
  proof -
    note f = formatting_unfilled_header [OF b, of s2 columns]
    have hT: "headerRow = True" using hr by simp
    have ne: "formattingRequests s2 t2 columns headerRow \<noteq> []"
      unfolding hT f by simp
    from run [OF a] ne
    have "calls_of w (snd (insertTable w d index rows columns data headerRow)) =
          [BatchUpdate d [InsertText index [0x000A]],
           BatchUpdate d [InsertTable rows columns (index + 1)], Get d]
          @ fill_calls d t data headerRow
          @ [Get d, BatchUpdate d (formattingRequests s2 t2 columns headerRow)]"
      by simp
    then show ?thesis unfolding hT f .
  qed
  from insertTable_inserts [of i "txt" w d index rows columns data headerRow]
    insertTable_truncate [of w d index rows columns doc s t data headerRow]
    run header
  show ?thesis by blast
qed

theorem cell_fill_truncates_silently_witness:
  "oversized ! 0 ! 0 = []
   \<and> insertTable unfilled_header_world ''d'' 1 2 2 oversized True =
       insertTable unfilled_header_world ''d'' 1 2 2 [[[], js ''B''], [js ''C'', js ''D'']] True
   \<and> fst (insertTable unfilled_header_world ''d'' 1 2 2 oversized True) = Inr ()
   \<and> calls_of unfilled_header_world
        (snd (insertTable unfilled_header_world ''d'' 1 2 2 oversized True)) =
       [BatchUpdate ''d'' [InsertText 1 [0x000A]], BatchUpdate ''d'' [InsertTable 2 2 2],
        Get ''d'',
        BatchUpdate ''d'' [InsertText 12 (js ''D''), InsertText 10 (js ''C''),
                           InsertText 7 (js ''B'')],
        Get ''d'',
        BatchUpdate ''d''
          [border_request 2 0 0, border_request 2 0 (Suc 0),
           border_request 2 (Suc 0) 0, border_request 2 (Suc 0) (Suc 0),
           UpdateParagraphStyle (Range 5 6) (Alignment ''CENTER'') ''alignment'',
           UpdateTableCellStyle (BackgroundColor (RgbColor (9 / 10) (9 / 10) (9 / 10)))
             (TableRange 2 0 0 1 1) ''backgroundColor'',
           UpdateParagraphStyle (Range 7 9) (Alignment ''CENTER'') ''alignment'',
           UpdateTextStyle (Range 7 9) (TextStyleBold True) ''bold'',
           UpdateTableCellStyle (BackgroundColor (RgbColor (9 / 10) (9 / 10) (9 / 10)))
             (TableRange 2 0 (Suc 0) 1 1) ''backgroundColor'']]
   \<and> InsertText 7 (js ''B'')
        \<in> set (submitted_requests (calls_of unfilled_header_world
                  (snd (insertTable unfilled_header_world ''d'' 1 2 2 oversized True))))
   \<and> ((7::int) = 1 \<and> js ''B'' = [0x000A]
      \<or> (\<exists>h doc s t rowIdx colIdx. snapshots unfilled_header_world h ''d'' = Inr doc
            \<and> find_table (content_or_empty doc) (1 + 1) = Some (s, t)
            \<and> rowIdx < length (or_empty (tableRows t)) \<and> rowIdx < length oversized
            \<and> colIdx < length (or_empty (tableCells (or_empty (tableRows t) ! rowIdx)))
            \<and> colIdx < length (oversized ! rowIdx)
            \<and> oversized ! rowIdx ! colIdx \<noteq> [] \<and> js ''B'' = oversized ! rowIdx ! colIdx
            \<and> first_paragraph_start
                 (or_empty (cell_content
                    (or_empty (tableCells (or_empty (tableRows t) ! rowIdx)) ! colIdx)))
                = Some 7))"
proof -
  note inst = cell_fill_truncates_silently [of 7 "js ''B''" unfilled_header_world "''d''" 1 2 2
      oversized True empty_table_document 2 empty_table partly_filled_table_document 2
      partly_filled_table "TableRow (Some [cell_at 4 [], cell_at 6 (js ''B'')])"
      "[TableRow (Some [cell_at 10 (js ''C''), cell_at 13 (js ''D'')])]" 0 5 6]
  have e: "oversized ! 0 ! 0 = []" by (simp add: oversized_def)
  have c2: "insertTable unfilled_header_world ''d'' 1 2 2 oversized True =
       insertTable unfilled_header_world ''d'' 1 2 2 [[[], js ''B''], [js ''C'', js ''D'']] True"
    using inst [THEN conjunct2, THEN conjunct1]
    by (simp add: find_empty_table oversized_cut)
  have c3: "fst (insertTable unfilled_header_world ''d'' 1 2 2 oversized True) = Inr ()"
    using inst [THEN conjunct2, THEN conjunct2, THEN conjunct1]
    by (simp add: find_empty_table find_partly_filled_table fill_calls_oversized)
  have c4: "calls_of unfilled_header_world
        (snd (insertTable unfilled_header_world ''d'' 1 2 2 oversized True)) =
       [BatchUpdate ''d'' [InsertText 1 [0x000A]], BatchUpdate ''d'' [InsertTable 2 2 2],
        Get ''d'',
        BatchUpdate ''d'' [InsertText 12 (js ''D''), InsertText 10 (js ''C''),
                           InsertText 7 (js ''B'')],
        Get ''d'',
        BatchUpdate ''d''
          [border_request 2 0 0, border_request 2 0 (Suc 0),
           border_request 2 (Suc 0) 0, border_request 2 (Suc 0) (Suc 0),
           UpdateParagraphStyle (Range 5 6) (Alignment ''CENTER'') ''alignment'',
           UpdateTableCellStyle (BackgroundColor (RgbColor (9 / 10) (9 / 10) (9 / 10)))
             (TableRange 2 0 0 1 1) ''backgroundColor'',
           UpdateParagraphStyle (Range 7 9) (Alignment ''CENTER'') ''alignment'',
           UpdateTextStyle (Range 7 9) (TextStyleBold True) ''bold'',
           UpdateTableCellStyle (BackgroundColor (RgbColor (9 / 10) (9 / 10) (9 / 10)))
             (TableRange 2 0 (Suc 0) 1 1) ''backgroundColor'']]"
    using inst [THEN conjunct2, THEN conjunct2, THEN conjunct2]
    by (simp add: find_empty_table find_partly_filled_table fill_calls_oversized
        partly_filled_table_def header_cell_B border_requests_2_2
        cell_at_def [of 4] text_paragraph_def [of 5])
  have h1: "InsertText 7 (js ''B'')
        \<in> set (submitted_requests (calls_of unfilled_header_world
                  (snd (insertTable unfilled_header_world ''d'' 1 2 2 oversized True))))"
    unfolding c4 by simp
  note c1 = inst [THEN conjunct1, THEN mp, OF h1]
  from e c2 c3 c4 h1 c1 show ?thesis by (intro conjI)
qed

end
